theory Spec2Isabelle
  imports Main "HOL-Library.Word"
begin

section \<open>Strings\<close>

text \<open>
  A Python \<open>str\<close> is a sequence of Unicode code points; it is modelled as a list of
  natural numbers.  \<open>asc\<close> embeds an ASCII literal; the non-ASCII letters of the
  program's literals are written as code points (U+0161 s-caron, U+010D c-caron,
  U+0160 S-caron, U+2014 em dash).
\<close>

type_synonym ustr = "nat list"

definition asc :: "string \<Rightarrow> ustr" where
  "asc s = map of_char s"

text \<open>Code points that UTF-8 can encode: everything up to U+10FFFF but the surrogates.\<close>

definition is_scalar :: "nat \<Rightarrow> bool" where
  "is_scalar c = (c < 0xD800 \<or> (0xE000 \<le> c \<and> c < 0x110000))"

definition scalar_str :: "ustr \<Rightarrow> bool" where
  "scalar_str s = list_all is_scalar s"

text \<open>
  \<open>str.isspace\<close> for one code point: general category Zs or bidirectional class
  WS, B or S.
\<close>

definition isspace :: "nat \<Rightarrow> bool" where
  "isspace c = ((0x09 \<le> c \<and> c \<le> 0x0D) \<or> (0x1C \<le> c \<and> c \<le> 0x20) \<or> c = 0x85 \<or> c = 0xA0
     \<or> c = 0x1680 \<or> (0x2000 \<le> c \<and> c \<le> 0x200A) \<or> c = 0x2028 \<or> c = 0x2029
     \<or> c = 0x202F \<or> c = 0x205F \<or> c = 0x3000)"

text \<open>\<open>s.strip()\<close>: drop leading and trailing whitespace.\<close>

definition strip :: "ustr \<Rightarrow> ustr" where
  "strip s = rev (dropWhile isspace (rev (dropWhile isspace s)))"

text \<open>\<open>sep.join(xs)\<close>.\<close>

fun join :: "ustr \<Rightarrow> ustr list \<Rightarrow> ustr" where
  "join sep [] = []"
| "join sep [x] = x"
| "join sep (x # y # ys) = x @ sep @ join sep (y # ys)"

section \<open>Configuration\<close>

text \<open>The subject catalog \<open>PREDMETI\<close>: (code, label) pairs in their fixed order.\<close>

definition PREDMETI :: "(ustr \<times> ustr) list" where
  "PREDMETI =
    [(asc ''mat'', asc ''Matematika''), (asc ''fiz'', asc ''Fizika''),
     (asc ''ang'', asc ''Angle'' @ [0x161, 0x10D] @ asc ''ina''),
     (asc ''inf'', asc ''Informatika''), (asc ''kem'', asc ''Kemija''),
     (asc ''nem'', asc ''Nem'' @ [0x161, 0x10D] @ asc ''ina''),
     (asc ''slo'', asc ''Sloven'' @ [0x161, 0x10D] @ asc ''ina''),
     (asc ''bio'', asc ''Biologija''), (asc ''zgod'', asc ''Zgodovina''),
     (asc ''geo'', asc ''Geografija''),
     (asc ''spa'', [0x160] @ asc ''pan'' @ [0x161, 0x10D] @ asc ''ina''),
     (asc ''ita'', asc ''Italijan'' @ [0x161, 0x10D] @ asc ''ina''),
     (asc ''fra'', asc ''Franco'' @ [0x161, 0x10D] @ asc ''ina'')]"

definition WS_TITLE :: ustr where
  "WS_TITLE = asc ''Instruktorji''"

definition HEADERS :: "ustr list" where
  "HEADERS = [asc ''Datum'', asc ''Ime'', asc ''Priimek'', asc ''E-po'' @ [0x161] @ asc ''ta'',
     asc ''Razred'', asc ''Oddelek'', asc ''Predmeti (u'' @ [0x10D] @ asc ''itelj)'']"

text \<open>The options the form template offers for \<open>razred\<close> and \<open>oddelek\<close>.\<close>

definition RAZREDI :: "ustr list" where
  "RAZREDI = [asc ''1. letnik'', asc ''2. letnik'', asc ''3. letnik'', asc ''4. letnik'']"

definition ODDELKI :: "ustr list" where
  "ODDELKI = [asc ''a'', asc ''b'', asc ''c'', asc ''d'', asc ''e'', asc ''f'']"

section \<open>The submitted form\<close>

text \<open>
  \<open>request.form\<close> is a multi-dictionary: the submitted (key, value) pairs in the order
  they were sent.  \<open>f.get(key)\<close> is the first value stored under the key, or
  \<open>None\<close>; \<open>f.get(key, default)\<close> replaces \<open>None\<close> by the default.
\<close>

type_synonym form = "(ustr \<times> ustr) list"

definition form_get :: "form \<Rightarrow> ustr \<Rightarrow> ustr option" where
  "form_get f k = map_of f k"

definition form_get_default :: "form \<Rightarrow> ustr \<Rightarrow> ustr \<Rightarrow> ustr" where
  "form_get_default f k d = (case map_of f k of None \<Rightarrow> d | Some v \<Rightarrow> v)"

definition chk_key :: "ustr \<Rightarrow> ustr" where
  "chk_key code = asc ''chk_'' @ code"

definition teacher_key :: "ustr \<Rightarrow> ustr" where
  "teacher_key code = asc ''teacher_'' @ code"

definition MSG_REQUIRED :: ustr where
  "MSG_REQUIRED = asc ''Izpolnite vsa obvezna polja (ime, priimek, e-po'' @ [0x161]
     @ asc ''ta, razred, oddelek).''"

definition msg_teacher :: "ustr \<Rightarrow> ustr" where
  "msg_teacher label = asc ''Vnesite u'' @ [0x10D] @ asc ''itelja pri predmetu '' @ label @ asc ''.''"

definition MSG_THANKS :: ustr where
  "MSG_THANKS = asc ''Hvala! Prijava je shranjena.''"

definition DASH :: ustr where
  "DASH = [0x2014]"

text \<open>
  The loop of \<open>oddaj\<close> over the catalog: \<open>pari\<close> is the list built so far; the
  result is \<open>Inl label\<close> when the loop leaves the function at a checked subject
  without a teacher, and the finished list otherwise.
\<close>

fun oddaj_pari :: "form \<Rightarrow> (ustr \<times> ustr) list \<Rightarrow> ustr list \<Rightarrow> ustr + ustr list" where
  "oddaj_pari f [] pari = Inr pari"
| "oddaj_pari f ((code, label) # rest) pari =
     (if form_get f (chk_key code) = Some (asc ''on'') then
        (let teacher = strip (form_get_default f (teacher_key code) []) in
         if teacher = [] then Inl label
         else oddaj_pari f rest (pari @ [label @ asc '' ('' @ teacher @ asc '')'']))
      else oddaj_pari f rest pari)"

section \<open>The world outside the handlers\<close>

text \<open>
  Values a Python function hands back where the type is not fixed by the program: the
  result of a function without a \<open>return\<close> statement is \<open>None\<close>.
\<close>

datatype pyval = PyNone | PyBool bool | PyInt int | PyStr ustr

datatype exn =
    SqliteError           \<comment> \<open>any \<open>sqlite3.Error\<close>\<close>
  | UnicodeEncodeError    \<comment> \<open>a string with a code point UTF-8 cannot encode\<close>
  | OverflowError         \<comment> \<open>a Python int outside SQLite's 64-bit INTEGER\<close>
  | RuntimeError          \<comment> \<open>no service-account credentials\<close>
  | GoogleError           \<comment> \<open>any exception of the credentials and spreadsheet libraries\<close>

text \<open>One row of table \<open>instruktors\<close>.\<close>

record vnos =
  v_id :: int
  v_datum :: ustr
  v_ime :: ustr
  v_priimek :: ustr
  v_email :: ustr
  v_razred :: ustr
  v_oddelek :: ustr
  v_predmeti :: ustr

text \<open>
  The calls that leave the process and the log records, in the order they are made.  A
  call is recorded when it is attempted, whether it succeeds or raises.
\<close>

datatype event =
    DbConnect | DbExecute | DbCommit | DbClose
  | GsAuthorize | GsOpenByKey
  | WsLookup | WsAdd | WsGetAllValues | WsAppendRow "ustr list"
  | LogInfo | LogWarning | LogException

text \<open>
  The state the handlers share: the SQLite file (the table, absent until
  \<open>init_db\<close> has run; the counter SQLite keeps for an AUTOINCREMENT key; the number of
  connections opened and not closed), the module's cached spreadsheet handle
  \<open>_gs_spread\<close>, the rows of the worksheet (\<open>None\<close> while it does not exist), and the
  trace of events.
\<close>

record world =
  db_table :: "vnos list option"
  db_seq :: int
  db_open :: nat
  gs_spread :: bool
  ws_rows :: "ustr list list option"
  trace :: "event list"

text \<open>
  What the environment answers during one request: the two readings of the clock,
  already formatted, and for each external call whether it succeeds.
\<close>

record env =
  now_db :: ustr
  now_ws :: ustr
  db_connect_ok :: bool
  db_execute_ok :: bool
  db_commit_ok :: bool
  secret_file :: bool
  local_file :: bool
  env_json :: bool
  creds_ok :: bool
  authorize_ok :: bool
  open_by_key_ok :: bool
  worksheet_ok :: bool
  add_worksheet_ok :: bool
  header_append_ok :: bool
  get_all_values_ok :: bool
  append_row_ok :: bool

definition emit :: "event \<Rightarrow> world \<Rightarrow> world" where
  "emit e w = w\<lparr>trace := trace w @ [e]\<rparr>"

section \<open>Local store\<close>

definition INT64_MAX :: int where
  "INT64_MAX = 9223372036854775807"

text \<open>\<open>sqlite3.connect(DB_PATH)\<close>, \<open>con.commit()\<close> and \<open>con.close()\<close>.\<close>

definition sqlite_connect :: "env \<Rightarrow> world \<Rightarrow> (exn + unit) \<times> world" where
  "sqlite_connect e w =
     (let w1 = emit DbConnect w in
      if db_connect_ok e then (Inr (), w1\<lparr>db_open := Suc (db_open w1)\<rparr>)
      else (Inl SqliteError, w1))"

text \<open>
  A statement works on the connection's open transaction; \<open>commit\<close> makes its result
  (table and counter) the content of the file.  A transaction that is never committed
  leaves the file as it was.
\<close>

definition sqlite_commit :: "env \<Rightarrow> vnos list \<times> int \<Rightarrow> world \<Rightarrow> (exn + unit) \<times> world" where
  "sqlite_commit e pending w =
     (let w1 = emit DbCommit w in
      if db_commit_ok e then (Inr (), w1\<lparr>db_table := Some (fst pending), db_seq := snd pending\<rparr>)
      else (Inl SqliteError, w1))"

definition sqlite_close :: "world \<Rightarrow> world" where
  "sqlite_close w = (emit DbClose w)\<lparr>db_open := db_open w - 1\<rparr>"

text \<open>
  The key SQLite gives a new row of an AUTOINCREMENT table: one more than the largest
  key the table has ever held.
\<close>

definition next_id :: "vnos list \<Rightarrow> int \<Rightarrow> int" where
  "next_id rows s = fold max (map v_id rows) s + 1"

text \<open>\<open>CREATE TABLE IF NOT EXISTS instruktors\<close>.\<close>

definition execute_create :: "env \<Rightarrow> world \<Rightarrow> (exn + vnos list \<times> int) \<times> world" where
  "execute_create e w =
     (let w1 = emit DbExecute w in
      if \<not> db_execute_ok e then (Inl SqliteError, w1)
      else (case db_table w1 of
              None \<Rightarrow> (Inr ([], db_seq w1), w1)
            | Some rows \<Rightarrow> (Inr (rows, db_seq w1), w1)))"

text \<open>
  \<open>INSERT INTO instruktors (datum, ...) VALUES (?, ...)\<close>: the seven parameters are
  bound as UTF-8 text, which fails on a string UTF-8 cannot encode; the statement fails
  when the table is missing or no key is left.
\<close>

definition execute_insert ::
  "env \<Rightarrow> ustr \<Rightarrow> ustr \<Rightarrow> ustr \<Rightarrow> ustr \<Rightarrow> ustr \<Rightarrow> ustr \<Rightarrow> ustr \<Rightarrow> world
     \<Rightarrow> (exn + vnos list \<times> int) \<times> world" where
  "execute_insert e d i p m r od pr w =
     (let w1 = emit DbExecute w in
      if \<not> db_execute_ok e then (Inl SqliteError, w1)
      else (case db_table w1 of
              None \<Rightarrow> (Inl SqliteError, w1)
            | Some rows \<Rightarrow>
                if \<not> list_all scalar_str [d, i, p, m, r, od, pr] then (Inl UnicodeEncodeError, w1)
                else (let n = next_id rows (db_seq w1) in
                      if n > INT64_MAX then (Inl SqliteError, w1)
                      else (Inr (rows @ [\<lparr>v_id = n, v_datum = d, v_ime = i, v_priimek = p,
                                    v_email = m, v_razred = r, v_oddelek = od, v_predmeti = pr\<rparr>], n),
                            w1))))"

text \<open>\<open>SELECT id, datum, ... FROM instruktors ORDER BY id DESC\<close> with \<open>fetchall\<close>.\<close>

definition execute_select :: "env \<Rightarrow> world \<Rightarrow> (exn + vnos list) \<times> world" where
  "execute_select e w =
     (let w1 = emit DbExecute w in
      if \<not> db_execute_ok e then (Inl SqliteError, w1)
      else (case db_table w1 of
              None \<Rightarrow> (Inl SqliteError, w1)
            | Some rows \<Rightarrow> (Inr (rev (sort_key v_id rows)), w1)))"

text \<open>
  \<open>DELETE FROM instruktors WHERE id = ?\<close>: the parameter is bound as a 64-bit integer,
  which fails on a Python int outside that range.
\<close>

definition execute_delete :: "env \<Rightarrow> int \<Rightarrow> world \<Rightarrow> (exn + vnos list \<times> int) \<times> world" where
  "execute_delete e row_id w =
     (let w1 = emit DbExecute w in
      if \<not> db_execute_ok e then (Inl SqliteError, w1)
      else (case db_table w1 of
              None \<Rightarrow> (Inl SqliteError, w1)
            | Some rows \<Rightarrow>
                if row_id < - INT64_MAX - 1 \<or> row_id > INT64_MAX then (Inl OverflowError, w1)
                else (Inr (filter (\<lambda>r. v_id r \<noteq> row_id) rows, db_seq w1), w1)))"

definition init_db :: "env \<Rightarrow> world \<Rightarrow> (exn + pyval) \<times> world" where
  "init_db e w =
     (case sqlite_connect e w of
        (Inl x, w1) \<Rightarrow> (Inl x, w1)
      | (Inr _, w1) \<Rightarrow>
          (case execute_create e w1 of
             (Inl x, w2) \<Rightarrow> (Inl x, w2)
           | (Inr pending, w2) \<Rightarrow>
               (case sqlite_commit e pending w2 of
                  (Inl x, w3) \<Rightarrow> (Inl x, w3)
                | (Inr _, w3) \<Rightarrow> (Inr PyNone, emit LogInfo (sqlite_close w3)))))"

definition add_vnos ::
  "env \<Rightarrow> ustr \<Rightarrow> ustr \<Rightarrow> ustr \<Rightarrow> ustr \<Rightarrow> ustr \<Rightarrow> ustr \<Rightarrow> world \<Rightarrow> (exn + pyval) \<times> world" where
  "add_vnos e i p m r od predmeti_str w =
     (case sqlite_connect e w of
        (Inl x, w1) \<Rightarrow> (Inl x, w1)
      | (Inr _, w1) \<Rightarrow>
          (case execute_insert e (now_db e) i p m r od predmeti_str w1 of
             (Inl x, w2) \<Rightarrow> (Inl x, w2)
           | (Inr pending, w2) \<Rightarrow>
               (case sqlite_commit e pending w2 of
                  (Inl x, w3) \<Rightarrow> (Inl x, w3)
                | (Inr _, w3) \<Rightarrow> (Inr PyNone, sqlite_close w3))))"

definition all_vnosi :: "env \<Rightarrow> world \<Rightarrow> (exn + vnos list) \<times> world" where
  "all_vnosi e w =
     (case sqlite_connect e w of
        (Inl x, w1) \<Rightarrow> (Inl x, w1)
      | (Inr _, w1) \<Rightarrow>
          (case execute_select e w1 of
             (Inl x, w2) \<Rightarrow> (Inl x, w2)
           | (Inr rows, w2) \<Rightarrow> (Inr rows, sqlite_close w2)))"

definition delete_vnos :: "env \<Rightarrow> int \<Rightarrow> world \<Rightarrow> (exn + pyval) \<times> world" where
  "delete_vnos e row_id w =
     (case sqlite_connect e w of
        (Inl x, w1) \<Rightarrow> (Inl x, w1)
      | (Inr _, w1) \<Rightarrow>
          (case execute_delete e row_id w1 of
             (Inl x, w2) \<Rightarrow> (Inl x, w2)
           | (Inr pending, w2) \<Rightarrow>
               (case sqlite_commit e pending w2 of
                  (Inl x, w3) \<Rightarrow> (Inl x, w3)
                | (Inr _, w3) \<Rightarrow> (Inr PyNone, sqlite_close w3))))"

section \<open>External mirror\<close>

text \<open>
  \<open>_build_creds\<close>: the first credential source that exists is used; building the
  credentials from it may raise; with no source a \<open>RuntimeError\<close> is raised.
\<close>

definition build_creds :: "env \<Rightarrow> world \<Rightarrow> (exn + unit) \<times> world" where
  "build_creds e w =
     (if secret_file e then
        (let w1 = emit LogInfo w in if creds_ok e then (Inr (), w1) else (Inl GoogleError, w1))
      else if local_file e then
        (let w1 = emit LogInfo w in if creds_ok e then (Inr (), w1) else (Inl GoogleError, w1))
      else if env_json e then
        (let w1 = emit LogInfo w in if creds_ok e then (Inr (), w1) else (Inl GoogleError, w1))
      else (Inl RuntimeError, w))"

text \<open>
  \<open>_get_spreadsheet\<close>: the cached handle if there is one; otherwise the connection
  is established and cached, and every exception on the way is logged and turned into
  \<open>None\<close>.
\<close>

definition get_spreadsheet :: "env \<Rightarrow> world \<Rightarrow> unit option \<times> world" where
  "get_spreadsheet e w =
     (if gs_spread w then (Some (), w)
      else (case build_creds e w of
              (Inl x, w1) \<Rightarrow> (None, emit LogException w1)
            | (Inr _, w1) \<Rightarrow>
                (let w2 = emit GsAuthorize w1 in
                 if \<not> authorize_ok e then (None, emit LogException w2)
                 else (let w3 = emit GsOpenByKey w2 in
                       if \<not> open_by_key_ok e then (None, emit LogException w3)
                       else (Some (), emit LogInfo (w3\<lparr>gs_spread := True\<rparr>))))))"

text \<open>
  \<open>_ensure_ws\<close>: \<open>None\<close> without a spreadsheet; a missing worksheet is created and
  given the header row (exceptions of these two calls, and any exception of the lookup
  other than \<open>WorksheetNotFound\<close>, leave the function); an existing worksheet gets
  the header row if it is empty, and exceptions of that probe are discarded.
\<close>

definition ensure_ws :: "env \<Rightarrow> ustr \<Rightarrow> ustr list \<Rightarrow> world \<Rightarrow> (exn + unit option) \<times> world" where
  "ensure_ws e title headers w =
     (case get_spreadsheet e w of
        (None, w1) \<Rightarrow> (Inr None, w1)
      | (Some _, w1) \<Rightarrow>
          (let w2 = emit WsLookup w1 in
           if \<not> worksheet_ok e then (Inl GoogleError, w2)
           else (case ws_rows w2 of
                   None \<Rightarrow>
                     (let w3 = emit WsAdd w2 in
                      if \<not> add_worksheet_ok e then (Inl GoogleError, w3)
                      else (let w4 = emit (WsAppendRow headers) (w3\<lparr>ws_rows := Some []\<rparr>) in
                            if \<not> header_append_ok e then (Inl GoogleError, w4)
                            else (Inr (Some ()), w4\<lparr>ws_rows := Some [headers]\<rparr>)))
                 | Some rows \<Rightarrow>
                     (let w3 = emit WsGetAllValues w2 in
                      if \<not> get_all_values_ok e then (Inr (Some ()), w3)
                      else if rows = [] then
                        (let w4 = emit (WsAppendRow headers) w3 in
                         if \<not> header_append_ok e then (Inr (Some ()), w4)
                         else (Inr (Some ()), w4\<lparr>ws_rows := Some [headers]\<rparr>))
                      else (Inr (Some ()), w3)))))"

text \<open>\<open>ws.append_row(row)\<close> on the worksheet \<open>_ensure_ws\<close> returned.\<close>

definition append_row :: "env \<Rightarrow> ustr list \<Rightarrow> world \<Rightarrow> (exn + unit) \<times> world" where
  "append_row e row w =
     (let w1 = emit (WsAppendRow row) w in
      if \<not> append_row_ok e then (Inl GoogleError, w1)
      else (Inr (), w1\<lparr>ws_rows := Some (case ws_rows w1 of None \<Rightarrow> [row] | Some rows \<Rightarrow> rows @ [row])\<rparr>))"

section \<open>Intake flow\<close>

datatype endpoint = Index | AdminLogin | AdminPanel

text \<open>
  A response: a redirect together with the messages flashed while handling the
  request, each with its category; or a file sent as an attachment.
\<close>

datatype response =
    Redirect endpoint "(ustr \<times> ustr) list"
  | SendFile "8 word list" ustr ustr

text \<open>The best-effort block of \<open>oddaj\<close>: whatever happens inside, the handler goes on.\<close>

definition oddaj_mirror :: "env \<Rightarrow> ustr list \<Rightarrow> world \<Rightarrow> world" where
  "oddaj_mirror e row w =
     (case ensure_ws e WS_TITLE HEADERS w of
        (Inl x, w1) \<Rightarrow> emit LogException w1
      | (Inr None, w1) \<Rightarrow> emit LogWarning w1
      | (Inr (Some _), w1) \<Rightarrow>
          (case append_row e row w1 of
             (Inl x, w2) \<Rightarrow> emit LogException w2
           | (Inr _, w2) \<Rightarrow> w2))"

definition oddaj :: "env \<Rightarrow> form \<Rightarrow> world \<Rightarrow> (exn + response) \<times> world" where
  "oddaj e f w =
     (let i = strip (form_get_default f (asc ''ime'') []);
          p = strip (form_get_default f (asc ''priimek'') []);
          m = strip (form_get_default f (asc ''email'') []);
          r = strip (form_get_default f (asc ''razred'') []);
          od = strip (form_get_default f (asc ''oddelek'') [])
      in
      if \<not> list_all (\<lambda>s. s \<noteq> []) [i, p, m, r, od] then
        (Inr (Redirect Index [(MSG_REQUIRED, asc ''error'')]), w)
      else
        (case oddaj_pari f PREDMETI [] of
           Inl label \<Rightarrow> (Inr (Redirect Index [(msg_teacher label, asc ''error'')]), w)
         | Inr pari \<Rightarrow>
             (let predmeti_str = (if pari \<noteq> [] then join (asc ''; '') pari else DASH) in
              case add_vnos e i p m r od predmeti_str w of
                (Inl x, w1) \<Rightarrow> (Inl x, w1)
              | (Inr _, w1) \<Rightarrow>
                  (Inr (Redirect Index [(MSG_THANKS, asc ''ok'')]),
                   oddaj_mirror e [now_ws e, i, p, m, r, od, predmeti_str] w1))))"

section \<open>Admin operations\<close>

type_synonym session = "(ustr \<times> pyval) list"

definition admin_ok :: "session \<Rightarrow> bool" where
  "admin_ok s = (map_of s (asc ''admin_ok'') = Some (PyBool True))"

definition admin_delete :: "env \<Rightarrow> session \<Rightarrow> int \<Rightarrow> world \<Rightarrow> (exn + response) \<times> world" where
  "admin_delete e s row_id w =
     (if \<not> admin_ok s then (Inr (Redirect AdminLogin []), w)
      else (case delete_vnos e row_id w of
              (Inl x, w1) \<Rightarrow> (Inl x, w1)
            | (Inr _, w1) \<Rightarrow> (Inr (Redirect AdminPanel []), w1)))"

section \<open>Export\<close>

text \<open>\<open>str(n)\<close> for an integer.\<close>

fun digits :: "nat \<Rightarrow> ustr" where
  "digits n = (if n < 10 then [48 + n] else digits (n div 10) @ [48 + n mod 10])"

declare digits.simps [simp del]

definition str_int :: "int \<Rightarrow> ustr" where
  "str_int n = (if n < 0 then 45 # digits (nat (- n)) else digits (nat n))"

text \<open>
  \<open>csv.writer(buf, delimiter=';')\<close>: the other parameters are those of the default
  dialect (quote character \<open>"\<close>, doubled inside a quoted field; minimal quoting; line
  terminator CR LF).  A cell that is not a string is written as \<open>str\<close> gives it; a
  field is quoted when it holds the delimiter, the quote character, CR or LF; a row of a
  single empty field is written as a pair of quotes.
\<close>

definition csv_str :: "pyval \<Rightarrow> ustr" where
  "csv_str v = (case v of PyNone \<Rightarrow> [] | PyBool b \<Rightarrow> (if b then asc ''True'' else asc ''False'')
                | PyInt n \<Rightarrow> str_int n | PyStr s \<Rightarrow> s)"

definition csv_special :: "nat \<Rightarrow> bool" where
  "csv_special c = (c = 59 \<or> c = 34 \<or> c = 13 \<or> c = 10)"

definition csv_field :: "ustr \<Rightarrow> ustr" where
  "csv_field s =
     (if list_ex csv_special s
      then [34] @ concat (map (\<lambda>c. if c = 34 then [34, 34] else [c]) s) @ [34]
      else s)"

definition writerow :: "pyval list \<Rightarrow> ustr" where
  "writerow cells =
     (if map csv_str cells = [[]] then [34, 34] @ [13, 10]
      else join [59] (map (\<lambda>v. csv_field (csv_str v)) cells) @ [13, 10])"

definition CSV_HEADER :: "pyval list" where
  "CSV_HEADER = map PyStr
     [asc ''ID'', asc ''Datum'', asc ''Ime'', asc ''Priimek'', asc ''E-po'' @ [0x161] @ asc ''ta'',
      asc ''Razred'', asc ''Oddelek'', asc ''Predmeti (u'' @ [0x10D] @ asc ''itelj)'']"

text \<open>\<open>list(r)\<close> for a fetched row.\<close>

definition row_cells :: "vnos \<Rightarrow> pyval list" where
  "row_cells r = [PyInt (v_id r), PyStr (v_datum r), PyStr (v_ime r), PyStr (v_priimek r),
     PyStr (v_email r), PyStr (v_razred r), PyStr (v_oddelek r), PyStr (v_predmeti r)]"

text \<open>UTF-8 for one code point; surrogates and values past U+10FFFF have no encoding.\<close>

definition utf8_char :: "nat \<Rightarrow> 8 word list option" where
  "utf8_char c =
     (if c < 0x80 then Some [of_nat c]
      else if c < 0x800 then Some [of_nat (0xC0 + c div 64), of_nat (0x80 + c mod 64)]
      else if c < 0x10000 then
        (if 0xD800 \<le> c \<and> c < 0xE000 then None
         else Some [of_nat (0xE0 + c div 4096), of_nat (0x80 + c div 64 mod 64),
                    of_nat (0x80 + c mod 64)])
      else if c < 0x110000 then
        Some [of_nat (0xF0 + c div 262144), of_nat (0x80 + c div 4096 mod 64),
              of_nat (0x80 + c div 64 mod 64), of_nat (0x80 + c mod 64)]
      else None)"

fun utf8 :: "ustr \<Rightarrow> 8 word list option" where
  "utf8 [] = Some []"
| "utf8 (c # cs) =
     (case utf8_char c of
        None \<Rightarrow> None
      | Some bs \<Rightarrow> (case utf8 cs of None \<Rightarrow> None | Some rest \<Rightarrow> Some (bs @ rest)))"

definition BOM :: "8 word list" where
  "BOM = [0xEF, 0xBB, 0xBF]"

text \<open>\<open>s.encode("utf-8-sig")\<close>.\<close>

definition encode_utf8_sig :: "ustr \<Rightarrow> exn + 8 word list" where
  "encode_utf8_sig s = (case utf8 s of None \<Rightarrow> Inl UnicodeEncodeError | Some bs \<Rightarrow> Inr (BOM @ bs))"

definition export_text :: "vnos list \<Rightarrow> ustr" where
  "export_text rows = writerow CSV_HEADER @ concat (map (\<lambda>r. writerow (row_cells r)) rows)"

definition export_csv :: "env \<Rightarrow> session \<Rightarrow> world \<Rightarrow> (exn + response) \<times> world" where
  "export_csv e s w =
     (if \<not> admin_ok s then (Inr (Redirect AdminLogin []), w)
      else (case all_vnosi e w of
              (Inl x, w1) \<Rightarrow> (Inl x, w1)
            | (Inr rows, w1) \<Rightarrow>
                (case encode_utf8_sig (export_text rows) of
                   Inl x \<Rightarrow> (Inl x, w1)
                 | Inr data \<Rightarrow>
                     (Inr (SendFile data (asc ''text/csv'') (asc ''instruktorji.csv'')), w1))))"

section \<open>Fixtures\<close>

text \<open>
  An environment in which every external call succeeds, a world whose database has just
  been initialised, and the form of the scenario of the specification.
\<close>

definition env_ok :: env where
  "env_ok = \<lparr>now_db = asc ''2025-01-01 10:00'', now_ws = asc ''2025-01-01 10:00'',
     db_connect_ok = True, db_execute_ok = True, db_commit_ok = True,
     secret_file = True, local_file = False, env_json = False, creds_ok = True,
     authorize_ok = True, open_by_key_ok = True, worksheet_ok = True,
     add_worksheet_ok = True, header_append_ok = True, get_all_values_ok = True,
     append_row_ok = True\<rparr>"

definition world0 :: world where
  "world0 = \<lparr>db_table = Some [], db_seq = 0, db_open = 0, gs_spread = False,
     ws_rows = None, trace = []\<rparr>"

definition form_ana :: form where
  "form_ana = [(asc ''ime'', asc ''Ana''), (asc ''priimek'', asc ''Novak''),
     (asc ''email'', asc ''a@x.si''), (asc ''razred'', asc ''2. letnik''),
     (asc ''oddelek'', asc ''b''), (asc ''chk_mat'', asc ''on''),
     (asc ''teacher_mat'', asc ''Kova'' @ [0x10D])]"

text \<open>A world whose table holds two records.\<close>

definition rows12 :: "vnos list" where
  "rows12 = [\<lparr>v_id = 1, v_datum = asc ''2025-01-01 10:00'', v_ime = asc ''Ana'',
          v_priimek = asc ''Novak'', v_email = asc ''a@x.si'', v_razred = asc ''2. letnik'',
          v_oddelek = asc ''b'', v_predmeti = DASH\<rparr>,
       \<lparr>v_id = 2, v_datum = asc ''2025-01-02 11:30'', v_ime = asc ''Bor'',
          v_priimek = asc ''Kos'', v_email = asc ''b@x.si'', v_razred = asc ''3. letnik'',
          v_oddelek = asc ''a'', v_predmeti = asc ''Fizika (Zajc); Kemija (Kos)''\<rparr>]"

definition world12 :: world where
  "world12 = world0\<lparr>db_table := Some rows12, db_seq := 2\<rparr>"

section \<open>Vocabulary for the properties of the intake flow\<close>

text \<open>
  The names of the five required fields, a field as \<open>oddaj\<close> reads it, and for a
  subject code: whether its checkbox is checked, the teacher name as \<open>oddaj\<close> reads
  it, and the entry the subject contributes to the summary.
\<close>

definition REQUIRED :: "ustr list" where
  "REQUIRED = [asc ''ime'', asc ''priimek'', asc ''email'', asc ''razred'', asc ''oddelek'']"

definition field :: "form \<Rightarrow> ustr \<Rightarrow> ustr" where
  "field f k = strip (form_get_default f k [])"

definition checked :: "form \<Rightarrow> ustr \<times> ustr \<Rightarrow> bool" where
  "checked f = (\<lambda>(code, label). form_get f (chk_key code) = Some (asc ''on''))"

definition teacher :: "form \<Rightarrow> ustr \<Rightarrow> ustr" where
  "teacher f code = strip (form_get_default f (teacher_key code) [])"

definition offending :: "form \<Rightarrow> ustr \<times> ustr \<Rightarrow> bool" where
  "offending f = (\<lambda>(code, label). checked f (code, label) \<and> teacher f code = [])"

definition pair_str :: "form \<Rightarrow> ustr \<times> ustr \<Rightarrow> ustr" where
  "pair_str f = (\<lambda>(code, label). label @ asc '' ('' @ teacher f code @ asc '')'')"

definition summary :: "form \<Rightarrow> ustr" where
  "summary f =
     (if filter (checked f) PREDMETI = [] then DASH
      else join (asc ''; '') (map (pair_str f) (filter (checked f) PREDMETI)))"

text \<open>
  Variants of the scenario form: the teacher of the checked subject left empty; the
  same with the first name blank; three checked subjects of which the second and the
  third have no teacher; the e-mail field not sent at all.
\<close>

definition form_no_teacher :: form where
  "form_no_teacher = [(asc ''ime'', asc ''Ana''), (asc ''priimek'', asc ''Novak''),
     (asc ''email'', asc ''a@x.si''), (asc ''razred'', asc ''2. letnik''),
     (asc ''oddelek'', asc ''b''), (asc ''chk_mat'', asc ''on''), (asc ''teacher_mat'', [])]"

definition form_blank_ime :: form where
  "form_blank_ime = [(asc ''ime'', asc ''  ''), (asc ''priimek'', asc ''Novak''),
     (asc ''email'', asc ''a@x.si''), (asc ''razred'', asc ''2. letnik''),
     (asc ''oddelek'', asc ''b''), (asc ''chk_mat'', asc ''on''), (asc ''teacher_mat'', [])]"

definition form_two_missing :: form where
  "form_two_missing = [(asc ''chk_kem'', asc ''on''), (asc ''chk_fiz'', asc ''on''),
     (asc ''teacher_fiz'', asc ''  ''), (asc ''ime'', asc ''Ana''), (asc ''priimek'', asc ''Novak''),
     (asc ''email'', asc ''a@x.si''), (asc ''razred'', asc ''2. letnik''),
     (asc ''oddelek'', asc ''b''), (asc ''chk_mat'', asc ''on''),
     (asc ''teacher_mat'', asc ''Kova'' @ [0x10D])]"

definition form_no_email :: form where
  "form_no_email = [(asc ''ime'', asc ''Ana''), (asc ''priimek'', asc ''Novak''),
     (asc ''razred'', asc ''2. letnik''), (asc ''oddelek'', asc ''b'')]"

text \<open>Events of the local store, and a form all of whose values UTF-8 can encode.\<close>

definition db_event :: "event \<Rightarrow> bool" where
  "db_event ev = (ev = DbConnect \<or> ev = DbExecute \<or> ev = DbCommit \<or> ev = DbClose)"

definition form_scalar :: "form \<Rightarrow> bool" where
  "form_scalar f = list_all (\<lambda>(k, v). scalar_str v) f"

text \<open>
  A form with a class the template does not offer, and the scenario form with three
  more entries: a checkbox whose value is not \<open>on\<close> and two teacher names for
  subjects that are not checked.
\<close>

definition form_other_class :: form where
  "form_other_class = [(asc ''ime'', asc ''Ana''), (asc ''priimek'', asc ''Novak''),
     (asc ''email'', asc ''a@x.si''), (asc ''razred'', asc ''5. letnik''),
     (asc ''oddelek'', asc ''z'')]"

definition form_unchecked_teacher :: form where
  "form_unchecked_teacher = form_ana @ [(asc ''chk_fiz'', asc ''yes''),
     (asc ''teacher_fiz'', asc ''Zajc''), (asc ''teacher_kem'', [])]"

text \<open>
  The scenario form with a second checked subject, sent with the fields in another
  order than the catalog has them.
\<close>

definition form_two_checked :: form where
  "form_two_checked = [(asc ''chk_kem'', asc ''on''), (asc ''teacher_kem'', asc '' Zajc''),
     (asc ''ime'', asc ''Ana''), (asc ''priimek'', asc ''Novak''),
     (asc ''email'', asc ''a@x.si''), (asc ''razred'', asc ''2. letnik''),
     (asc ''oddelek'', asc ''b''), (asc ''chk_mat'', asc ''on''),
     (asc ''teacher_mat'', asc ''Kova'' @ [0x10D])]"




definition env_execute_fails :: env where
  "env_execute_fails = env_ok\<lparr>db_execute_ok := False\<rparr>"



text \<open>
  A record all of whose text UTF-8 can encode, and the line the export is expected to
  hold for a record: its eight fields in the order of the header, the id in decimal,
  each field quoted where the CSV rules ask for it, joined by semicolons and ended by
  CR LF.
\<close>

definition row_scalar :: "vnos \<Rightarrow> bool" where
  "row_scalar r = list_all scalar_str
     [v_datum r, v_ime r, v_priimek r, v_email r, v_razred r, v_oddelek r, v_predmeti r]"

definition row_line :: "vnos \<Rightarrow> ustr" where
  "row_line r = join [59] (map csv_field
     [str_int (v_id r), v_datum r, v_ime r, v_priimek r, v_email r, v_razred r, v_oddelek r,
      v_predmeti r]) @ [13, 10]"

text \<open>The session of a logged-in administrator.\<close>

definition session_admin :: session where
  "session_admin = [(asc ''admin_ok'', PyBool True)]"

lemmas store_defs =
  init_db_def add_vnos_def all_vnosi_def delete_vnos_def sqlite_connect_def sqlite_commit_def
  sqlite_close_def execute_create_def execute_insert_def execute_select_def execute_delete_def
  emit_def Let_def

lemmas fixture_defs =
  env_ok_def world0_def form_ana_def asc_def DASH_def scalar_str_def is_scalar_def next_id_def
  INT64_MAX_def

section \<open>Keys of the local store\<close>





lemma add_vnos_run:
  assumes "db_connect_ok e" and "db_execute_ok e" and "db_commit_ok e"
    and "db_table w = Some rows"
    and "list_all scalar_str [now_db e, i, p, m, r, od, pr]"
    and "next_id rows (db_seq w) \<le> INT64_MAX"
  shows "add_vnos e i p m r od pr w =
    (Inr PyNone,
     w\<lparr>db_table := Some (rows @ [\<lparr>v_id = next_id rows (db_seq w), v_datum = now_db e,
          v_ime = i, v_priimek = p, v_email = m, v_razred = r, v_oddelek = od,
          v_predmeti = pr\<rparr>]),
       db_seq := next_id rows (db_seq w),
       trace := trace w @ [DbConnect, DbExecute, DbCommit, DbClose]\<rparr>)"
  using assms by (simp add: store_defs)

section \<open>Append to the local store\<close>




section \<open>Delete from the local store\<close>

lemma delete_vnos_run:
  assumes "db_connect_ok e" and "db_execute_ok e" and "db_commit_ok e"
    and "db_table w = Some rows"
    and "- INT64_MAX - 1 \<le> row_id" and "row_id \<le> INT64_MAX"
  shows "delete_vnos e row_id w =
    (Inr PyNone,
     w\<lparr>db_table := Some (filter (\<lambda>r. v_id r \<noteq> row_id) rows),
       trace := trace w @ [DbConnect, DbExecute, DbCommit, DbClose]\<rparr>)"
  using assms by (simp add: store_defs)

lemma filter_absent:
  "row_id \<notin> v_id ` set rows \<Longrightarrow> filter (\<lambda>r. v_id r \<noteq> row_id) rows = rows"
  by (induction rows) auto

lemma filter_remove1:
  "distinct (map v_id rows) \<Longrightarrow> x \<in> set rows \<Longrightarrow>
   filter (\<lambda>r. v_id r \<noteq> v_id x) rows = remove1 x rows"
proof (induction rows)
  case Nil
  then show ?case by simp
next
  case (Cons a rows)
  show ?case
  proof (cases "a = x")
    case True
    with Cons.prems have "v_id x \<notin> v_id ` set rows" by simp
    then show ?thesis using True by (simp add: filter_absent)
  next
    case False
    with Cons.prems have "x \<in> set rows" and "v_id a \<noteq> v_id x" by auto
    with Cons show ?thesis using False by simp
  qed
qed

text \<open>
  C9, as the code has it.  For a row id within the 64-bit range of the key column and a
  table whose ids are distinct (the primary key), \<open>delete_vnos\<close> returns without an
  exception when the database calls succeed; the table afterwards is the table
  before without the record of that id (exactly that one record is taken out, the
  others stay, in their order), the key counter is unchanged, and when no record has
  that id the table is unchanged.
\<close>

theorem delete_vnos_removes:
  assumes "db_connect_ok e" and "db_execute_ok e" and "db_commit_ok e"
    and "db_table w = Some rows" and "distinct (map v_id rows)"
    and "- INT64_MAX - 1 \<le> row_id" and "row_id \<le> INT64_MAX"
  shows "fst (delete_vnos e row_id w) = Inr PyNone
    \<and> db_table (snd (delete_vnos e row_id w)) = Some (filter (\<lambda>r. v_id r \<noteq> row_id) rows)
    \<and> db_seq (snd (delete_vnos e row_id w)) = db_seq w
    \<and> (\<forall>x \<in> set rows. v_id x = row_id \<longrightarrow>
          filter (\<lambda>r. v_id r \<noteq> row_id) rows = remove1 x rows)
    \<and> (row_id \<notin> v_id ` set rows \<longrightarrow>
          db_table (snd (delete_vnos e row_id w)) = db_table w)"
proof -
  have run: "delete_vnos e row_id w =
    (Inr PyNone,
     w\<lparr>db_table := Some (filter (\<lambda>r. v_id r \<noteq> row_id) rows),
       trace := trace w @ [DbConnect, DbExecute, DbCommit, DbClose]\<rparr>)"
    using assms(1-4,6,7) by (rule delete_vnos_run)
  have "\<forall>x \<in> set rows. v_id x = row_id \<longrightarrow>
          filter (\<lambda>r. v_id r \<noteq> row_id) rows = remove1 x rows"
    using filter_remove1 [OF assms(5)] by blast
  moreover have "row_id \<notin> v_id ` set rows \<longrightarrow>
      Some (filter (\<lambda>r. v_id r \<noteq> row_id) rows) = db_table w"
    using assms(4) by (simp add: filter_absent)
  ultimately show ?thesis by (simp add: run)
qed

theorem delete_vnos_removes_witness:
  "db_table (snd (delete_vnos env_ok 1 world12)) = Some [rows12 ! 1]
   \<and> db_table (snd (delete_vnos env_ok 7 world12)) = Some rows12
   \<and> fst (delete_vnos env_ok 7 world12) = Inr PyNone"
  using delete_vnos_removes [of env_ok world12 rows12 1]
    delete_vnos_removes [of env_ok world12 rows12 7]
  by (simp add: fixture_defs world12_def rows12_def)

text \<open>
  C9 as stated, for every id, fails: the route hands \<open>delete_vnos\<close> any non-negative
  integer, and for one that does not fit 64 bits (here \<open>2 ^ 63\<close>, an id no record has)
  binding the parameter raises \<open>OverflowError\<close>.
\<close>

theorem delete_vnos_overflow_counterexample:
  "fst (delete_vnos env_ok 9223372036854775808 world12) = Inl OverflowError
   \<and> 9223372036854775808 \<notin> v_id ` set (the (db_table world12))"
  by (simp add: store_defs fixture_defs world12_def rows12_def)

section \<open>Validation in the intake flow\<close>

lemma oddaj_pari_step:
  "oddaj_pari f ((code, label) # rest) pari =
     (if checked f (code, label) then
        (if teacher f code = [] then Inl label
         else oddaj_pari f rest (pari @ [pair_str f (code, label)]))
      else oddaj_pari f rest pari)"
  by (simp add: checked_def teacher_def pair_str_def Let_def)

lemma oddaj_pari_find:
  "oddaj_pari f cat pari =
     (case find (offending f) cat of
        Some (code, label) \<Rightarrow> Inl label
      | None \<Rightarrow> Inr (pari @ map (pair_str f) (filter (checked f) cat)))"
proof (induction cat arbitrary: pari)
  case Nil
  then show ?case by simp
next
  case (Cons a cat)
  obtain code label where a: "a = (code, label)" by (cases a)
  show ?case
  proof (cases "checked f (code, label)")
    case True
    show ?thesis
    proof (cases "teacher f code = []")
      case True
      with \<open>checked f (code, label)\<close> have "offending f (code, label)" by (simp add: offending_def)
      then show ?thesis unfolding a oddaj_pari_step using True \<open>checked f (code, label)\<close> by simp
    next
      case False
      then have "\<not> offending f (code, label)" by (simp add: offending_def)
      then show ?thesis unfolding a oddaj_pari_step using False True by (simp add: Cons split: option.split)
    qed
  next
    case False
    then have "\<not> offending f (code, label)" by (simp add: offending_def)
    then show ?thesis unfolding a oddaj_pari_step using False by (simp add: Cons split: option.split)
  qed
qed

lemma required_blank:
  "(\<exists>k \<in> set REQUIRED. field f k = []) =
   (\<not> list_all (\<lambda>s. s \<noteq> [])
      [strip (form_get_default f (asc ''ime'') []), strip (form_get_default f (asc ''priimek'') []),
       strip (form_get_default f (asc ''email'') []), strip (form_get_default f (asc ''razred'') []),
       strip (form_get_default f (asc ''oddelek'') [])])"
  by (auto simp: REQUIRED_def field_def)

lemma oddaj_required:
  assumes "\<exists>k \<in> set REQUIRED. field f k = []"
  shows "oddaj e f w = (Inr (Redirect Index [(MSG_REQUIRED, asc ''error'')]), w)"
proof -
  have "\<not> list_all (\<lambda>s. s \<noteq> [])
      [strip (form_get_default f (asc ''ime'') []), strip (form_get_default f (asc ''priimek'') []),
       strip (form_get_default f (asc ''email'') []), strip (form_get_default f (asc ''razred'') []),
       strip (form_get_default f (asc ''oddelek'') [])]"
    using assms required_blank [of f] by blast
  then show ?thesis unfolding oddaj_def Let_def by (rule if_P)
qed

lemma oddaj_not_required:
  assumes "\<forall>k \<in> set REQUIRED. field f k \<noteq> []"
  shows "oddaj e f w =
    (case oddaj_pari f PREDMETI [] of
       Inl label \<Rightarrow> (Inr (Redirect Index [(msg_teacher label, asc ''error'')]), w)
     | Inr pari \<Rightarrow>
         (case add_vnos e (field f (asc ''ime'')) (field f (asc ''priimek''))
                 (field f (asc ''email'')) (field f (asc ''razred'')) (field f (asc ''oddelek''))
                 (if pari \<noteq> [] then join (asc ''; '') pari else DASH) w of
            (Inl x, w1) \<Rightarrow> (Inl x, w1)
          | (Inr v, w1) \<Rightarrow>
              (Inr (Redirect Index [(MSG_THANKS, asc ''ok'')]),
               oddaj_mirror e [now_ws e, field f (asc ''ime''), field f (asc ''priimek''),
                 field f (asc ''email''), field f (asc ''razred''), field f (asc ''oddelek''),
                 (if pari \<noteq> [] then join (asc ''; '') pari else DASH)] w1)))"
proof -
  have "\<not> \<not> list_all (\<lambda>s. s \<noteq> [])
      [strip (form_get_default f (asc ''ime'') []), strip (form_get_default f (asc ''priimek'') []),
       strip (form_get_default f (asc ''email'') []), strip (form_get_default f (asc ''razred'') []),
       strip (form_get_default f (asc ''oddelek'') [])]"
    using assms required_blank [of f] by blast
  then show ?thesis unfolding oddaj_def Let_def field_def by (rule if_not_P)
qed

lemma oddaj_teacher:
  assumes "\<forall>k \<in> set REQUIRED. field f k \<noteq> []"
    and "find (offending f) PREDMETI = Some (code, label)"
  shows "oddaj e f w = (Inr (Redirect Index [(msg_teacher label, asc ''error'')]), w)"
  by (simp add: oddaj_not_required [OF assms(1)] oddaj_pari_find assms(2))

lemma oddaj_valid:
  assumes "\<forall>k \<in> set REQUIRED. field f k \<noteq> []"
    and "find (offending f) PREDMETI = None"
  shows "oddaj e f w =
    (case add_vnos e (field f (asc ''ime'')) (field f (asc ''priimek'')) (field f (asc ''email''))
            (field f (asc ''razred'')) (field f (asc ''oddelek'')) (summary f) w of
       (Inl x, w1) \<Rightarrow> (Inl x, w1)
     | (Inr v, w1) \<Rightarrow>
         (Inr (Redirect Index [(MSG_THANKS, asc ''ok'')]),
          oddaj_mirror e [now_ws e, field f (asc ''ime''), field f (asc ''priimek''),
            field f (asc ''email''), field f (asc ''razred''), field f (asc ''oddelek''),
            summary f] w1))"
proof (cases "filter (checked f) PREDMETI = []")
  case True
  then show ?thesis
    by (simp add: oddaj_not_required [OF assms(1)] oddaj_pari_find assms(2) summary_def
        split: prod.split sum.split)
next
  case False
  then show ?thesis
    by (simp add: oddaj_not_required [OF assms(1)] oddaj_pari_find assms(2) summary_def
        split: prod.split sum.split)
qed

lemmas form_defs =
  REQUIRED_def field_def checked_def teacher_def offending_def pair_str_def summary_def
  form_get_def form_get_default_def chk_key_def teacher_key_def strip_def isspace_def
  PREDMETI_def MSG_REQUIRED_def MSG_THANKS_def msg_teacher_def

text \<open>
  C4.  When one of the five required fields is not in the form, or is blank after
  trimming, \<open>oddaj\<close> answers with the one message about the required fields and leaves
  the world, and so the local store, as it was.
\<close>

theorem oddaj_rejects_missing_required:
  assumes "k \<in> set REQUIRED"
    and "form_get f k = None \<or> (\<exists>v. form_get f k = Some v \<and> strip v = [])"
  shows "oddaj e f w = (Inr (Redirect Index [(MSG_REQUIRED, asc ''error'')]), w)"
proof -
  have "field f k = []"
    using assms(2) by (auto simp: field_def form_get_def form_get_default_def strip_def)
  with assms(1) have "\<exists>k \<in> set REQUIRED. field f k = []" by blast
  then show ?thesis by (rule oddaj_required)
qed

theorem oddaj_rejects_missing_required_witness:
  "asc ''email'' \<in> set REQUIRED \<and> form_get form_no_email (asc ''email'') = None
   \<and> oddaj env_ok form_no_email world0 = (Inr (Redirect Index [(MSG_REQUIRED, asc ''error'')]), world0)
   \<and> asc ''ime'' \<in> set REQUIRED \<and> form_get form_blank_ime (asc ''ime'') = Some (asc ''  '')
   \<and> strip (asc ''  '') = []
   \<and> oddaj env_ok form_blank_ime world0 = (Inr (Redirect Index [(MSG_REQUIRED, asc ''error'')]), world0)"
  using oddaj_rejects_missing_required [of "asc ''email''" form_no_email env_ok world0]
    oddaj_rejects_missing_required [of "asc ''ime''" form_blank_ime env_ok world0]
  by (simp add: REQUIRED_def form_get_def form_no_email_def form_blank_ime_def asc_def strip_def
      isspace_def)

text \<open>
  C2, as the code has it.  When the five required fields are filled in and some subject
  of the catalog is checked with a teacher name that is empty after trimming,
  \<open>oddaj\<close> answers with the message that names the first such subject in catalog
  order, and leaves the world, and so the local store, as it was.
\<close>

theorem oddaj_rejects_missing_teacher:
  assumes "\<forall>k \<in> set REQUIRED. field f k \<noteq> []"
    and "s \<in> set PREDMETI" and "offending f s"
  shows "\<exists>i < length PREDMETI.
      offending f (PREDMETI ! i) \<and> (\<forall>j < i. \<not> offending f (PREDMETI ! j))
      \<and> oddaj e f w =
          (Inr (Redirect Index [(msg_teacher (snd (PREDMETI ! i)), asc ''error'')]), w)"
proof -
  have "\<exists>x. x \<in> set PREDMETI \<and> offending f x"
    using assms(2,3) by blast
  then have "find (offending f) PREDMETI \<noteq> None"
    by (simp only: find_None_iff not_not)
  then obtain t where t: "find (offending f) PREDMETI = Some t" by blast
  obtain code label where cl: "t = (code, label)" by (cases t)
  from t obtain i where i: "i < length PREDMETI" "offending f (PREDMETI ! i)"
      "t = PREDMETI ! i" "\<forall>j < i. \<not> offending f (PREDMETI ! j)"
    unfolding find_Some_iff by blast
  have "oddaj e f w = (Inr (Redirect Index [(msg_teacher label, asc ''error'')]), w)"
    using assms(1) t unfolding cl by (rule oddaj_teacher)
  with i cl show ?thesis by (metis snd_conv)
qed

theorem oddaj_rejects_missing_teacher_witness:
  "(asc ''kem'', asc ''Kemija'') \<in> set PREDMETI
   \<and> offending form_two_missing (asc ''kem'', asc ''Kemija'')
   \<and> offending form_two_missing (asc ''fiz'', asc ''Fizika'')
   \<and> oddaj env_ok form_two_missing world0 =
       (Inr (Redirect Index [(msg_teacher (asc ''Fizika''), asc ''error'')]), world0)
   \<and> offending form_no_teacher (asc ''mat'', asc ''Matematika'')
   \<and> oddaj env_ok form_no_teacher world0 =
       (Inr (Redirect Index [(msg_teacher (asc ''Matematika''), asc ''error'')]), world0)"
proof -
  have g1: "\<forall>k \<in> set REQUIRED. field form_no_teacher k \<noteq> []"
    by (simp add: form_defs form_no_teacher_def asc_def)
  have g2: "(asc ''mat'', asc ''Matematika'') \<in> set PREDMETI"
    by (simp add: PREDMETI_def)
  have g3: "offending form_no_teacher (asc ''mat'', asc ''Matematika'')"
    by (simp add: form_defs form_no_teacher_def asc_def)
  have l0: "PREDMETI ! 0 = (asc ''mat'', asc ''Matematika'')"
    by (simp add: PREDMETI_def)
  from oddaj_rejects_missing_teacher [OF g1 g2 g3, of env_ok world0]
  obtain j where j: "\<forall>k < j. \<not> offending form_no_teacher (PREDMETI ! k)"
      "oddaj env_ok form_no_teacher world0 =
         (Inr (Redirect Index [(msg_teacher (snd (PREDMETI ! j)), asc ''error'')]), world0)"
    by blast
  have "\<not> 0 < j" using j(1) g3 l0 by auto
  then have "j = 0" by simp
  with j(2) have g: "oddaj env_ok form_no_teacher world0 =
       (Inr (Redirect Index [(msg_teacher (asc ''Matematika''), asc ''error'')]), world0)"
    by (simp add: l0)
  have h1: "\<forall>k \<in> set REQUIRED. field form_two_missing k \<noteq> []"
    by (simp add: form_defs form_two_missing_def asc_def)
  have h2: "(asc ''kem'', asc ''Kemija'') \<in> set PREDMETI"
    by (simp add: PREDMETI_def)
  have h3: "offending form_two_missing (asc ''kem'', asc ''Kemija'')"
    by (simp add: form_defs form_two_missing_def asc_def)
  have p0: "\<not> offending form_two_missing (PREDMETI ! 0)"
    by (simp add: form_defs form_two_missing_def asc_def)
  have p1: "offending form_two_missing (PREDMETI ! Suc 0)"
    and l1: "PREDMETI ! Suc 0 = (asc ''fiz'', asc ''Fizika'')"
    by (simp_all add: form_defs form_two_missing_def asc_def)
  from oddaj_rejects_missing_teacher [OF h1 h2 h3, of env_ok world0]
  obtain i where i: "offending form_two_missing (PREDMETI ! i)"
      "\<forall>j < i. \<not> offending form_two_missing (PREDMETI ! j)"
      "oddaj env_ok form_two_missing world0 =
         (Inr (Redirect Index [(msg_teacher (snd (PREDMETI ! i)), asc ''error'')]), world0)"
    by blast
  have "\<not> Suc 0 < i" using i(2) p1 by blast
  moreover have "i \<noteq> 0" using i(1) p0 by (cases i) auto
  ultimately have "i = Suc 0" by simp
  with i(3) have "oddaj env_ok form_two_missing world0 =
       (Inr (Redirect Index [(msg_teacher (asc ''Fizika''), asc ''error'')]), world0)"
    by (simp add: l1)
  with h2 h3 p1 g g3 show ?thesis by (simp add: l1)
qed

text \<open>
  C2 as stated, for every submission with a checked subject without a teacher, fails:
  with the first name blank the answer is the message about the required fields, which
  does not name the subject.
\<close>

theorem oddaj_missing_teacher_counterexample:
  "offending form_blank_ime (asc ''mat'', asc ''Matematika'')
   \<and> fst (oddaj env_ok form_blank_ime world0) = Inr (Redirect Index [(MSG_REQUIRED, asc ''error'')])
   \<and> MSG_REQUIRED \<noteq> msg_teacher (asc ''Matematika'')"
  by (simp add: oddaj_def Let_def form_defs form_blank_ime_def asc_def)

section \<open>What the store and the mirror leave alone\<close>

lemma mirror_frame:
  "db_table (oddaj_mirror e row w) = db_table w \<and> db_seq (oddaj_mirror e row w) = db_seq w
   \<and> db_open (oddaj_mirror e row w) = db_open w"
  by (simp add: oddaj_mirror_def ensure_ws_def get_spreadsheet_def build_creds_def
      append_row_def emit_def Let_def split: option.split)



lemma add_vnos_raises:
  assumes "fst (add_vnos e i p m r od pr w) = Inl x"
  shows "db_table (snd (add_vnos e i p m r od pr w)) = db_table w
    \<and> db_seq (snd (add_vnos e i p m r od pr w)) = db_seq w
    \<and> gs_spread (snd (add_vnos e i p m r od pr w)) = gs_spread w
    \<and> ws_rows (snd (add_vnos e i p m r od pr w)) = ws_rows w
    \<and> (\<exists>evs. trace (snd (add_vnos e i p m r od pr w)) = trace w @ evs \<and> list_all db_event evs)"
  using assms
  by (auto simp: store_defs db_event_def split: if_splits option.splits)

lemma add_vnos_returns:
  assumes "fst (add_vnos e i p m r od pr w) = Inr v"
  shows "\<exists>rows. db_table w = Some rows
    \<and> snd (add_vnos e i p m r od pr w) =
        w\<lparr>db_table := Some (rows @ [\<lparr>v_id = next_id rows (db_seq w), v_datum = now_db e,
             v_ime = i, v_priimek = p, v_email = m, v_razred = r, v_oddelek = od,
             v_predmeti = pr\<rparr>]),
          db_seq := next_id rows (db_seq w),
          trace := trace w @ [DbConnect, DbExecute, DbCommit, DbClose]\<rparr>"
  using assms
  by (auto simp: store_defs split: if_splits option.splits)

lemma find_offending_None:
  "(\<forall>s \<in> set PREDMETI. \<not> offending f s) \<Longrightarrow> find (offending f) PREDMETI = None"
  by (simp only: find_None_iff) blast

lemma scalar_str_append: "scalar_str (a @ b) = (scalar_str a \<and> scalar_str b)"
  by (simp add: scalar_str_def)

lemma scalar_str_strip: "scalar_str s \<Longrightarrow> scalar_str (strip s)"
  by (auto simp: scalar_str_def strip_def list_all_iff dest!: set_dropWhileD)

lemma scalar_str_join:
  "scalar_str sep \<Longrightarrow> list_all scalar_str xs \<Longrightarrow> scalar_str (join sep xs)"
  by (induction sep xs rule: join.induct) (simp_all add: scalar_str_append, simp add: scalar_str_def)

lemma scalar_form_get:
  assumes "form_scalar f"
  shows "scalar_str (form_get_default f k [])"
proof (cases "map_of f k")
  case None
  then show ?thesis by (simp add: form_get_default_def scalar_str_def)
next
  case (Some v)
  then have "(k, v) \<in> set f" by (rule map_of_SomeD)
  with assms have "scalar_str v" by (auto simp: form_scalar_def list_all_iff)
  with Some show ?thesis by (simp add: form_get_default_def)
qed

lemma scalar_field: "form_scalar f \<Longrightarrow> scalar_str (field f k)"
  by (simp add: field_def scalar_str_strip scalar_form_get)

lemma scalar_teacher: "form_scalar f \<Longrightarrow> scalar_str (teacher f code)"
  by (simp add: teacher_def scalar_str_strip scalar_form_get)

lemma scalar_labels: "list_all (\<lambda>(code, label). scalar_str label) PREDMETI"
  by (simp add: PREDMETI_def asc_def scalar_str_def is_scalar_def)

lemma scalar_asc: "scalar_str (asc s)"
proof -
  have "is_scalar (of_char c)" for c :: char
  proof -
    have "of_char c < (55296::nat)"
      by (rule order_less_trans [OF nat_of_char_less_256]) simp
    then show ?thesis by (simp add: is_scalar_def)
  qed
  then show ?thesis by (simp add: asc_def scalar_str_def list_all_iff)
qed

lemma scalar_pair_str:
  "form_scalar f \<Longrightarrow> s \<in> set PREDMETI \<Longrightarrow> scalar_str (pair_str f s)"
  using scalar_labels
  by (cases s) (auto simp: pair_str_def scalar_str_append scalar_asc scalar_teacher list_all_iff)

lemma scalar_summary: "form_scalar f \<Longrightarrow> scalar_str (summary f)"
proof -
  assume f: "form_scalar f"
  have "list_all scalar_str (map (pair_str f) (filter (checked f) PREDMETI))"
    using scalar_pair_str [OF f] by (simp add: list_all_iff)
  then have "scalar_str (join (asc ''; '') (map (pair_str f) (filter (checked f) PREDMETI)))"
    by (rule scalar_str_join [OF scalar_asc])
  moreover have "scalar_str DASH" by (simp add: DASH_def scalar_str_def is_scalar_def)
  ultimately show ?thesis by (simp add: summary_def)
qed

section \<open>What the intake flow reads and what it persists\<close>

lemma join_nonempty: "xs \<noteq> [] \<Longrightarrow> hd xs \<noteq> [] \<Longrightarrow> join sep xs \<noteq> []"
  by (induction sep xs rule: join.induct) simp_all

lemma summary_nonempty: "summary f \<noteq> []"
proof (cases "filter (checked f) PREDMETI")
  case Nil
  then show ?thesis by (simp add: summary_def DASH_def)
next
  case (Cons s ss)
  obtain code label where s: "s = (code, label)" by (cases s)
  have "pair_str f s \<noteq> []" by (simp add: s pair_str_def asc_def)
  then have "join (asc ''; '') (map (pair_str f) (s # ss)) \<noteq> []"
    by (intro join_nonempty) simp_all
  with Cons show ?thesis by (simp add: summary_def)
qed

lemma oddaj_pari_agree:
  assumes "\<forall>s \<in> set cat. checked f s = checked g s"
    and "\<forall>s \<in> set cat. checked f s \<longrightarrow> teacher f (fst s) = teacher g (fst s)"
  shows "oddaj_pari f cat pari = oddaj_pari g cat pari"
  using assms
proof (induction cat arbitrary: pari)
  case Nil
  then show ?case by simp
next
  case (Cons a cat)
  obtain code label where a: "a = (code, label)" by (cases a)
  have c: "checked f (code, label) = checked g (code, label)"
    using Cons.prems(1) by (simp add: a)
  have t: "checked f (code, label) \<Longrightarrow> teacher f code = teacher g code"
    using Cons.prems(2) by (simp add: a)
  have ih: "oddaj_pari f cat q = oddaj_pari g cat q" for q
    using Cons.IH Cons.prems by simp
  show ?case
  proof (cases "checked f (code, label)")
    case True
    with c t have "checked g (code, label)" and "teacher f code = teacher g code" by simp_all
    then show ?thesis
      unfolding a oddaj_pari_step using True by (simp add: ih pair_str_def)
  next
    case False
    with c have "\<not> checked g (code, label)" by simp
    then show ?thesis unfolding a oddaj_pari_step using False by (simp add: ih)
  qed
qed

lemma oddaj_agree:
  assumes "\<forall>k \<in> set REQUIRED. form_get f k = form_get g k"
    and "\<forall>s \<in> set PREDMETI. checked f s = checked g s"
    and "\<forall>s \<in> set PREDMETI. checked f s \<longrightarrow>
           form_get f (teacher_key (fst s)) = form_get g (teacher_key (fst s))"
  shows "oddaj e f w = oddaj e g w"
proof -
  have d: "form_get_default h k [] = (case form_get h k of None \<Rightarrow> [] | Some v \<Rightarrow> v)" for h k
    by (simp add: form_get_default_def form_get_def)
  have r: "form_get_default f k [] = form_get_default g k []" if "k \<in> set REQUIRED" for k
    using assms(1) that by (simp add: d)
  have r1: "form_get_default f (asc ''ime'') [] = form_get_default g (asc ''ime'') []"
    and r2: "form_get_default f (asc ''priimek'') [] = form_get_default g (asc ''priimek'') []"
    and r3: "form_get_default f (asc ''email'') [] = form_get_default g (asc ''email'') []"
    and r4: "form_get_default f (asc ''razred'') [] = form_get_default g (asc ''razred'') []"
    and r5: "form_get_default f (asc ''oddelek'') [] = form_get_default g (asc ''oddelek'') []"
    by (rule r, simp add: REQUIRED_def)+
  have "\<forall>s \<in> set PREDMETI. checked f s \<longrightarrow> teacher f (fst s) = teacher g (fst s)"
    using assms(3) by (simp add: teacher_def d)
  with assms(2) have p: "oddaj_pari f PREDMETI [] = oddaj_pari g PREDMETI []"
    by (rule oddaj_pari_agree)
  show ?thesis
    unfolding oddaj_def r1 r2 r3 r4 r5 p ..
qed

lemma oddaj_map_of: "map_of f = map_of g \<Longrightarrow> oddaj e f w = oddaj e g w"
  by (rule oddaj_agree) (simp_all add: form_get_def checked_def)

lemma oddaj_persisted:
  assumes "db_table (snd (oddaj e f w)) \<noteq> db_table w"
  shows "(\<forall>k \<in> set REQUIRED. field f k \<noteq> []) \<and> find (offending f) PREDMETI = None
    \<and> (\<exists>rows n. db_table w = Some rows \<and> db_table (snd (oddaj e f w)) =
          Some (rows @ [\<lparr>v_id = n, v_datum = now_db e, v_ime = field f (asc ''ime''),
             v_priimek = field f (asc ''priimek''), v_email = field f (asc ''email''),
             v_razred = field f (asc ''razred''), v_oddelek = field f (asc ''oddelek''),
             v_predmeti = summary f\<rparr>]))"
proof -
  have req: "\<forall>k \<in> set REQUIRED. field f k \<noteq> []"
  proof (rule ccontr)
    assume "\<not> (\<forall>k \<in> set REQUIRED. field f k \<noteq> [])"
    then have "\<exists>k \<in> set REQUIRED. field f k = []" by blast
    then have "oddaj e f w = (Inr (Redirect Index [(MSG_REQUIRED, asc ''error'')]), w)"
      by (rule oddaj_required)
    with assms show False by simp
  qed
  have fnd: "find (offending f) PREDMETI = None"
  proof (cases "find (offending f) PREDMETI")
    case None
    then show ?thesis .
  next
    case (Some t)
    obtain code label where "t = (code, label)" by (cases t)
    with Some req have "oddaj e f w = (Inr (Redirect Index [(msg_teacher label, asc ''error'')]), w)"
      by (simp add: oddaj_teacher)
    with assms show ?thesis by simp
  qed
  let ?a = "add_vnos e (field f (asc ''ime'')) (field f (asc ''priimek'')) (field f (asc ''email''))
            (field f (asc ''razred'')) (field f (asc ''oddelek'')) (summary f) w"
  note v = oddaj_valid [OF req fnd, of e w]
  show ?thesis
  proof (cases "fst ?a")
    case (Inl x)
    then have "snd (oddaj e f w) = snd ?a" unfolding v by (cases ?a) simp
    with add_vnos_raises [OF Inl] assms show ?thesis by simp
  next
    case (Inr y)
    from add_vnos_returns [OF Inr] obtain rows where
      rows: "db_table w = Some rows" "db_table (snd ?a) =
          Some (rows @ [\<lparr>v_id = next_id rows (db_seq w), v_datum = now_db e,
             v_ime = field f (asc ''ime''),
             v_priimek = field f (asc ''priimek''), v_email = field f (asc ''email''),
             v_razred = field f (asc ''razred''), v_oddelek = field f (asc ''oddelek''),
             v_predmeti = summary f\<rparr>])"
      by auto
    have "db_table (snd (oddaj e f w)) = db_table (snd ?a)"
      unfolding v using Inr by (cases ?a) (simp add: mirror_frame)
    with rows req fnd show ?thesis by auto
  qed
qed

section \<open>The persisted summary\<close>

lemma oddaj_healthy:
  assumes req: "\<forall>k \<in> set REQUIRED. field f k \<noteq> []"
    and valid: "\<forall>s \<in> set PREDMETI. \<not> offending f s"
    and env: "db_connect_ok e" "db_execute_ok e" "db_commit_ok e"
    and tab: "db_table w = Some rows" and nid: "next_id rows (db_seq w) \<le> INT64_MAX"
    and sc: "scalar_str (now_db e)" "form_scalar f"
  shows "oddaj e f w =
    (Inr (Redirect Index [(MSG_THANKS, asc ''ok'')]),
     oddaj_mirror e [now_ws e, field f (asc ''ime''), field f (asc ''priimek''),
         field f (asc ''email''), field f (asc ''razred''), field f (asc ''oddelek''), summary f]
       (w\<lparr>db_table := Some (rows @ [\<lparr>v_id = next_id rows (db_seq w), v_datum = now_db e,
             v_ime = field f (asc ''ime''), v_priimek = field f (asc ''priimek''),
             v_email = field f (asc ''email''), v_razred = field f (asc ''razred''),
             v_oddelek = field f (asc ''oddelek''), v_predmeti = summary f\<rparr>]),
          db_seq := next_id rows (db_seq w),
          trace := trace w @ [DbConnect, DbExecute, DbCommit, DbClose]\<rparr>))"
proof -
  have "list_all scalar_str [now_db e, field f (asc ''ime''), field f (asc ''priimek''),
      field f (asc ''email''), field f (asc ''razred''), field f (asc ''oddelek''), summary f]"
    using sc by (simp add: scalar_field scalar_summary)
  note run = add_vnos_run [OF env tab this nid]
  show ?thesis
    unfolding oddaj_valid [OF req find_offending_None [OF valid]] run by simp
qed

text \<open>
  C3.  For a submission that passes validation (the five required fields filled in, every
  checked subject with a teacher name that is not empty after trimming), with the
  database calls succeeding and the submitted text encodable, \<open>oddaj\<close> answers with the
  success message and appends one record whose summary is: the em dash when no subject
  is checked, and otherwise the strings \<open>Label (Teacher)\<close> of the checked subjects, in
  catalog order, joined by \<open>; \<close>.  The summary is never empty, and the answer does not
  depend on the order in which the fields were sent.
\<close>

theorem oddaj_persists_summary:
  assumes "\<forall>k \<in> set REQUIRED. field f k \<noteq> []"
    and "\<forall>s \<in> set PREDMETI. \<not> offending f s"
    and "db_connect_ok e" and "db_execute_ok e" and "db_commit_ok e"
    and "db_table w = Some rows" and "next_id rows (db_seq w) \<le> INT64_MAX"
    and "scalar_str (now_db e)" and "form_scalar f"
  shows "fst (oddaj e f w) = Inr (Redirect Index [(MSG_THANKS, asc ''ok'')])
    \<and> (\<exists>x. db_table (snd (oddaj e f w)) = Some (rows @ [x])
           \<and> v_predmeti x =
               (if filter (checked f) PREDMETI = [] then DASH
                else join (asc ''; '')
                  (map (\<lambda>(code, label). label @ asc '' ('' @ teacher f code @ asc '')'')
                     (filter (checked f) PREDMETI)))
           \<and> v_predmeti x \<noteq> [])
    \<and> (\<forall>g. set g = set f \<and> distinct (map fst f) \<and> distinct (map fst g)
           \<longrightarrow> oddaj e g w = oddaj e f w)"
proof -
  note h = oddaj_healthy [OF assms]
  have s: "summary f =
      (if filter (checked f) PREDMETI = [] then DASH
       else join (asc ''; '')
         (map (\<lambda>(code, label). label @ asc '' ('' @ teacher f code @ asc '')'')
            (filter (checked f) PREDMETI)))"
    by (simp add: summary_def pair_str_def)
  have 1: "fst (oddaj e f w) = Inr (Redirect Index [(MSG_THANKS, asc ''ok'')])"
    by (simp add: h)
  have "db_table (snd (oddaj e f w)) =
      Some (rows @ [\<lparr>v_id = next_id rows (db_seq w), v_datum = now_db e,
             v_ime = field f (asc ''ime''), v_priimek = field f (asc ''priimek''),
             v_email = field f (asc ''email''), v_razred = field f (asc ''razred''),
             v_oddelek = field f (asc ''oddelek''), v_predmeti = summary f\<rparr>])"
    by (simp add: h mirror_frame)
  moreover have "summary f \<noteq> []" by (rule summary_nonempty)
  ultimately have 2: "\<exists>x. db_table (snd (oddaj e f w)) = Some (rows @ [x])
           \<and> v_predmeti x =
               (if filter (checked f) PREDMETI = [] then DASH
                else join (asc ''; '')
                  (map (\<lambda>(code, label). label @ asc '' ('' @ teacher f code @ asc '')'')
                     (filter (checked f) PREDMETI)))
           \<and> v_predmeti x \<noteq> []"
    using s by (intro exI conjI) (assumption, simp_all)
  have 3: "oddaj e g w = oddaj e f w"
    if "set g = set f \<and> distinct (map fst f) \<and> distinct (map fst g)" for g
  proof -
    from that have "map_of g = map_of f" by (simp add: map_of_inject_set)
    then show ?thesis by (rule oddaj_map_of)
  qed
  from 1 2 3 show ?thesis by blast
qed

theorem oddaj_persists_summary_witness:
  "fst (oddaj env_ok form_two_checked world0) = Inr (Redirect Index [(MSG_THANKS, asc ''ok'')])
   \<and> map v_predmeti (the (db_table (snd (oddaj env_ok form_two_checked world0)))) =
       [asc ''Matematika (Kova'' @ [0x10D] @ asc ''); Kemija (Zajc)'']
   \<and> map v_predmeti (the (db_table (snd (oddaj env_ok (take 5 form_ana) world0)))) = [DASH]
   \<and> oddaj env_ok (rev form_two_checked) world0 = oddaj env_ok form_two_checked world0"
proof -
  have f: "form_scalar form_two_checked"
    by (simp add: form_scalar_def form_two_checked_def asc_def scalar_str_def is_scalar_def)
  have r: "\<forall>k \<in> set REQUIRED. field form_two_checked k \<noteq> []"
    by (simp add: form_defs form_two_checked_def asc_def)
  have v: "\<forall>s \<in> set PREDMETI. \<not> offending form_two_checked s"
    by (simp add: form_defs form_two_checked_def asc_def)
  have f': "form_scalar (take 5 form_ana)"
    by (simp add: form_scalar_def form_ana_def asc_def scalar_str_def is_scalar_def)
  have r': "\<forall>k \<in> set REQUIRED. field (take 5 form_ana) k \<noteq> []"
    by (simp add: form_defs form_ana_def asc_def)
  have v': "\<forall>s \<in> set PREDMETI. \<not> offending (take 5 form_ana) s"
    by (simp add: form_defs form_ana_def asc_def)
  have e: "db_connect_ok env_ok" "db_execute_ok env_ok" "db_commit_ok env_ok"
      "scalar_str (now_db env_ok)" "db_table world0 = Some []"
      "next_id [] (db_seq world0) \<le> INT64_MAX"
    by (simp_all add: fixture_defs)
  have c: "filter (checked form_two_checked) PREDMETI =
      [(asc ''mat'', asc ''Matematika''), (asc ''kem'', asc ''Kemija'')]"
    by (simp add: form_defs form_two_checked_def asc_def)
  have t: "teacher form_two_checked (asc ''mat'') = asc ''Kova'' @ [0x10D]"
      "teacher form_two_checked (asc ''kem'') = asc ''Zajc''"
    by (simp_all add: form_defs form_two_checked_def asc_def)
  have c': "filter (checked (take 5 form_ana)) PREDMETI = []"
    by (simp add: form_defs form_ana_def asc_def)
  have d: "set (rev form_two_checked) = set form_two_checked
      \<and> distinct (map fst form_two_checked) \<and> distinct (map fst (rev form_two_checked))"
  proof -
    have "distinct (map fst form_two_checked)"
      by (simp add: form_two_checked_def asc_def)
    then show ?thesis unfolding rev_map [symmetric] distinct_rev set_rev by simp
  qed
  note A = oddaj_persists_summary [OF r v e(1-3) e(5,6) e(4) f, unfolded c]
  note B = oddaj_persists_summary [OF r' v' e(1-3) e(5,6) e(4) f', unfolded c']
  from A have 1: "fst (oddaj env_ok form_two_checked world0) =
      Inr (Redirect Index [(MSG_THANKS, asc ''ok'')])"
    by blast
  from A obtain x where "db_table (snd (oddaj env_ok form_two_checked world0)) = Some ([] @ [x])"
    and "v_predmeti x = asc ''Matematika (Kova'' @ [0x10D] @ asc ''); Kemija (Zajc)''"
    by (auto simp: t [unfolded asc_def, simplified] asc_def)
  then have 2: "map v_predmeti (the (db_table (snd (oddaj env_ok form_two_checked world0)))) =
       [asc ''Matematika (Kova'' @ [0x10D] @ asc ''); Kemija (Zajc)'']"
    by simp
  from B obtain y where "db_table (snd (oddaj env_ok (take 5 form_ana) world0)) = Some ([] @ [y])"
    and "v_predmeti y = DASH"
    by auto
  then have 3: "map v_predmeti (the (db_table (snd (oddaj env_ok (take 5 form_ana) world0)))) =
      [DASH]"
    by simp
  from A d have 4: "oddaj env_ok (rev form_two_checked) world0 =
      oddaj env_ok form_two_checked world0"
    by blast
  from 1 2 3 4 show ?thesis by blast
qed

section \<open>Unchecked subjects and the class fields\<close>

text \<open>
  C10.  The answer of \<open>oddaj\<close> depends on a checkbox only through whether its value is
  exactly \<open>on\<close>, and on a teacher name only when the subject is checked: two forms
  that agree on the five required fields, on which catalog subjects have the checkbox
  value \<open>on\<close>, and on the teacher names of those subjects, get the same answer and
  leave the same world.  So a teacher name sent for an unchecked subject is neither
  validated nor included in the summary, and causes no rejection.
\<close>

theorem oddaj_ignores_unchecked:
  assumes "\<forall>k \<in> set REQUIRED. form_get f k = form_get g k"
    and "\<forall>(code, label) \<in> set PREDMETI.
           (form_get f (chk_key code) = Some (asc ''on'')) = (form_get g (chk_key code) = Some (asc ''on''))"
    and "\<forall>(code, label) \<in> set PREDMETI. form_get f (chk_key code) = Some (asc ''on'') \<longrightarrow>
           form_get f (teacher_key code) = form_get g (teacher_key code)"
  shows "oddaj e f w = oddaj e g w"
proof (rule oddaj_agree [OF assms(1)])
  show "\<forall>s \<in> set PREDMETI. checked f s = checked g s"
    using assms(2) by (auto simp: checked_def)
  show "\<forall>s \<in> set PREDMETI. checked f s \<longrightarrow>
      form_get f (teacher_key (fst s)) = form_get g (teacher_key (fst s))"
    using assms(3) by (auto simp: checked_def)
qed

theorem oddaj_ignores_unchecked_witness:
  "form_get form_unchecked_teacher (chk_key (asc ''fiz'')) = Some (asc ''yes'')
   \<and> form_get form_unchecked_teacher (teacher_key (asc ''fiz'')) = Some (asc ''Zajc'')
   \<and> form_get form_unchecked_teacher (teacher_key (asc ''kem'')) = Some []
   \<and> form_get form_ana (teacher_key (asc ''fiz'')) = None
   \<and> oddaj env_ok form_unchecked_teacher world0 = oddaj env_ok form_ana world0"
proof -
  have 1: "\<forall>k \<in> set REQUIRED. form_get form_unchecked_teacher k = form_get form_ana k"
    by (simp add: REQUIRED_def form_get_def form_unchecked_teacher_def form_ana_def asc_def)
  have 2: "\<forall>(code, label) \<in> set PREDMETI.
      (form_get form_unchecked_teacher (chk_key code) = Some (asc ''on''))
      = (form_get form_ana (chk_key code) = Some (asc ''on''))"
    by (simp add: PREDMETI_def form_get_def chk_key_def form_unchecked_teacher_def form_ana_def
        asc_def)
  have 3: "\<forall>(code, label) \<in> set PREDMETI.
      form_get form_unchecked_teacher (chk_key code) = Some (asc ''on'') \<longrightarrow>
      form_get form_unchecked_teacher (teacher_key code) = form_get form_ana (teacher_key code)"
    by (simp add: PREDMETI_def form_get_def chk_key_def teacher_key_def
        form_unchecked_teacher_def form_ana_def asc_def)
  have 4: "form_get form_unchecked_teacher (chk_key (asc ''fiz'')) = Some (asc ''yes'')
   \<and> form_get form_unchecked_teacher (teacher_key (asc ''fiz'')) = Some (asc ''Zajc'')
   \<and> form_get form_unchecked_teacher (teacher_key (asc ''kem'')) = Some []
   \<and> form_get form_ana (teacher_key (asc ''fiz'')) = None"
    by (simp add: form_get_def chk_key_def teacher_key_def form_unchecked_teacher_def
        form_ana_def asc_def)
  from 4 oddaj_ignores_unchecked [OF 1 2 3, of env_ok world0] show ?thesis by blast
qed

text \<open>
  C6, as the code has it.  Whenever \<open>oddaj\<close> changes the table, it has appended one
  record whose \<open>razred\<close> and \<open>oddelek\<close> are the submitted values trimmed of
  surrounding whitespace, and neither is empty.  The values are not compared with the
  options of the form template.
\<close>

theorem oddaj_persists_trimmed_class:
  assumes "db_table (snd (oddaj e f w)) \<noteq> db_table w"
  shows "\<exists>rows x. db_table w = Some rows \<and> db_table (snd (oddaj e f w)) = Some (rows @ [x])
    \<and> v_razred x = strip (form_get_default f (asc ''razred'') []) \<and> v_razred x \<noteq> []
    \<and> v_oddelek x = strip (form_get_default f (asc ''oddelek'') []) \<and> v_oddelek x \<noteq> []"
proof -
  from oddaj_persisted [OF assms] obtain rows n where
    req: "\<forall>k \<in> set REQUIRED. field f k \<noteq> []"
    and tab: "db_table w = Some rows" "db_table (snd (oddaj e f w)) =
          Some (rows @ [\<lparr>v_id = n, v_datum = now_db e, v_ime = field f (asc ''ime''),
             v_priimek = field f (asc ''priimek''), v_email = field f (asc ''email''),
             v_razred = field f (asc ''razred''), v_oddelek = field f (asc ''oddelek''),
             v_predmeti = summary f\<rparr>])"
    by blast
  from req have "field f (asc ''razred'') \<noteq> []" and "field f (asc ''oddelek'') \<noteq> []"
    by (simp_all add: REQUIRED_def)
  with tab show ?thesis by (simp add: field_def)
qed

theorem oddaj_persists_trimmed_class_witness:
  "db_table (snd (oddaj env_ok form_ana world0)) \<noteq> db_table world0
   \<and> map v_razred (the (db_table (snd (oddaj env_ok form_ana world0)))) = [asc ''2. letnik'']
   \<and> map v_oddelek (the (db_table (snd (oddaj env_ok form_ana world0)))) = [asc ''b'']"
proof -
  have ne: "db_table (snd (oddaj env_ok form_ana world0)) \<noteq> db_table world0"
    by (simp add: oddaj_def Let_def form_defs store_defs fixture_defs mirror_frame
        split: prod.split sum.split)
  have w: "db_table world0 = Some []" by (simp add: world0_def)
  have s: "strip (form_get_default form_ana (asc ''razred'') []) = asc ''2. letnik''"
      "strip (form_get_default form_ana (asc ''oddelek'') []) = asc ''b''"
    by (simp_all add: form_defs form_ana_def asc_def)
  from oddaj_persists_trimmed_class [OF ne] show ?thesis
    unfolding s w using ne by auto
qed

text \<open>
  C6 as stated fails: a request with a class and a section outside the options of the
  template is persisted as sent.
\<close>

theorem oddaj_class_counterexample:
  "map v_razred (the (db_table (snd (oddaj env_ok form_other_class world0)))) = [asc ''5. letnik'']
   \<and> asc ''5. letnik'' \<notin> set RAZREDI
   \<and> map v_oddelek (the (db_table (snd (oddaj env_ok form_other_class world0)))) = [asc ''z'']
   \<and> asc ''z'' \<notin> set ODDELKI"
  by (simp add: oddaj_def Let_def form_defs store_defs fixture_defs mirror_frame
      form_other_class_def RAZREDI_def ODDELKI_def split: prod.split sum.split)

section \<open>Local write before the mirror\<close>




section \<open>Connections of the local store\<close>

text \<open>
  C7, as the code has it.  Each of \<open>init_db\<close>, \<open>add_vnos\<close>, \<open>all_vnosi\<close> and
  \<open>delete_vnos\<close> opens a connection of its own as its first call, and when it
  returns normally its last call of the store has closed that connection: the number of
  open connections is what it was before the call.
\<close>

theorem store_ops_close_on_return:
  "(\<forall>v. fst (init_db e w) = Inr v \<longrightarrow>
      db_open (snd (init_db e w)) = db_open w
      \<and> trace (snd (init_db e w)) = trace w @ [DbConnect, DbExecute, DbCommit, DbClose, LogInfo])
   \<and> (\<forall>v. fst (add_vnos e i p m r od pr w) = Inr v \<longrightarrow>
      db_open (snd (add_vnos e i p m r od pr w)) = db_open w
      \<and> trace (snd (add_vnos e i p m r od pr w)) =
          trace w @ [DbConnect, DbExecute, DbCommit, DbClose])
   \<and> (\<forall>v. fst (all_vnosi e w) = Inr v \<longrightarrow>
      db_open (snd (all_vnosi e w)) = db_open w
      \<and> trace (snd (all_vnosi e w)) = trace w @ [DbConnect, DbExecute, DbClose])
   \<and> (\<forall>v. fst (delete_vnos e row_id w) = Inr v \<longrightarrow>
      db_open (snd (delete_vnos e row_id w)) = db_open w
      \<and> trace (snd (delete_vnos e row_id w)) =
          trace w @ [DbConnect, DbExecute, DbCommit, DbClose])"
proof -
  have 1: "db_open (snd (init_db e w)) = db_open w
      \<and> trace (snd (init_db e w)) = trace w @ [DbConnect, DbExecute, DbCommit, DbClose, LogInfo]"
    if "fst (init_db e w) = Inr v" for v
    using that by (auto simp: store_defs split: if_splits option.splits)
  have 2: "db_open (snd (add_vnos e i p m r od pr w)) = db_open w
      \<and> trace (snd (add_vnos e i p m r od pr w)) =
          trace w @ [DbConnect, DbExecute, DbCommit, DbClose]"
    if "fst (add_vnos e i p m r od pr w) = Inr v" for v
    using that by (auto simp: store_defs split: if_splits option.splits)
  have 3: "db_open (snd (all_vnosi e w)) = db_open w
      \<and> trace (snd (all_vnosi e w)) = trace w @ [DbConnect, DbExecute, DbClose]"
    if "fst (all_vnosi e w) = Inr v" for v
    using that by (auto simp: store_defs split: if_splits option.splits)
  have 4: "db_open (snd (delete_vnos e row_id w)) = db_open w
      \<and> trace (snd (delete_vnos e row_id w)) =
          trace w @ [DbConnect, DbExecute, DbCommit, DbClose]"
    if "fst (delete_vnos e row_id w) = Inr v" for v
    using that by (auto simp: store_defs split: if_splits option.splits)
  from 1 2 3 4 show ?thesis by blast
qed

theorem store_ops_close_on_return_witness:
  "fst (init_db env_ok world0) = Inr PyNone
   \<and> db_open (snd (init_db env_ok world0)) = 0
   \<and> trace (snd (init_db env_ok world0)) = [DbConnect, DbExecute, DbCommit, DbClose, LogInfo]
   \<and> fst (all_vnosi env_ok world12) = Inr (rev rows12)
   \<and> db_open (snd (all_vnosi env_ok world12)) = 0
   \<and> fst (delete_vnos env_ok 2 world12) = Inr PyNone
   \<and> db_open (snd (delete_vnos env_ok 2 world12)) = 0"
proof -
  have a: "fst (init_db env_ok world0) = Inr PyNone"
    by (simp add: store_defs fixture_defs)
  have b: "fst (all_vnosi env_ok world12) = Inr (rev rows12)"
    by (simp add: store_defs fixture_defs world12_def rows12_def)
  have c: "fst (delete_vnos env_ok 2 world12) = Inr PyNone"
    by (simp add: store_defs fixture_defs world12_def rows12_def)
  note T = store_ops_close_on_return [of env_ok world0]
  note U = store_ops_close_on_return [of env_ok world12 _ _ _ _ _ _ 2]
  from T a have "db_open (snd (init_db env_ok world0)) = db_open world0
      \<and> trace (snd (init_db env_ok world0)) =
          trace world0 @ [DbConnect, DbExecute, DbCommit, DbClose, LogInfo]"
    by blast
  moreover from U b have "db_open (snd (all_vnosi env_ok world12)) = db_open world12"
    by blast
  moreover from U c have "db_open (snd (delete_vnos env_ok 2 world12)) = db_open world12"
    by blast
  ultimately show ?thesis
    using a b c by (simp add: world0_def world12_def)
qed

text \<open>
  C7 as stated, release on all exit paths, fails: no operation guards its statements, so
  when the statement of \<open>add_vnos\<close> raises the exception leaves the function with the
  connection opened and \<open>close\<close> not called.
\<close>

theorem store_op_leaves_connection_counterexample:
  "fst (add_vnos env_execute_fails (asc ''Ana'') (asc ''Novak'') (asc ''a@x.si'')
         (asc ''2. letnik'') (asc ''b'') DASH world0) = Inl SqliteError
   \<and> db_open world0 = 0
   \<and> db_open (snd (add_vnos env_execute_fails (asc ''Ana'') (asc ''Novak'') (asc ''a@x.si'')
         (asc ''2. letnik'') (asc ''b'') DASH world0)) = 1
   \<and> trace (snd (add_vnos env_execute_fails (asc ''Ana'') (asc ''Novak'') (asc ''a@x.si'')
         (asc ''2. letnik'') (asc ''b'') DASH world0)) = [DbConnect, DbExecute]"
  by (simp add: store_defs fixture_defs env_execute_fails_def)

section \<open>Export of the listing\<close>

lemma utf8_char_scalar: "is_scalar c \<Longrightarrow> utf8_char c \<noteq> None"
  by (auto simp: is_scalar_def utf8_char_def)

lemma utf8_scalar: "scalar_str s \<Longrightarrow> \<exists>bs. utf8 s = Some bs"
proof (induction s)
  case Nil
  then show ?case by simp
next
  case (Cons c s)
  then have "utf8_char c \<noteq> None" and "\<exists>bs. utf8 s = Some bs"
    by (simp_all add: scalar_str_def utf8_char_scalar)
  then show ?case by auto
qed

lemma scalar_str_Cons: "scalar_str (c # s) = (is_scalar c \<and> scalar_str s)"
  by (simp add: scalar_str_def)

lemma scalar_str_Nil: "scalar_str []"
  by (simp add: scalar_str_def)

lemma scalar_str_concat: "list_all scalar_str xs \<Longrightarrow> scalar_str (concat xs)"
  by (induction xs) (simp_all add: scalar_str_append, simp add: scalar_str_def)

lemma scalar_csv_field: "scalar_str s \<Longrightarrow> scalar_str (csv_field s)"
proof -
  assume s: "scalar_str s"
  have "list_all scalar_str (map (\<lambda>c. if c = 34 then [34, 34] else [c]) s)"
    using s by (auto simp: scalar_str_def list_all_iff is_scalar_def)
  then have "scalar_str (concat (map (\<lambda>c. if c = 34 then [34, 34] else [c]) s))"
    by (rule scalar_str_concat)
  with s show ?thesis
    by (simp add: csv_field_def scalar_str_append scalar_str_Cons scalar_str_Nil is_scalar_def)
qed

lemma scalar_digits: "scalar_str (digits n)"
proof (induction n rule: digits.induct)
  case (1 n)
  show ?case
  proof (cases "n < 10")
    case True
    then show ?thesis by (simp add: digits.simps [of n] scalar_str_def is_scalar_def)
  next
    case False
    have "n mod 10 < 10" by simp
    then have "is_scalar (48 + n mod 10)" unfolding is_scalar_def by linarith
    with False 1 show ?thesis
      by (simp add: digits.simps [of n] scalar_str_append) (simp add: scalar_str_def)
  qed
qed

lemma scalar_str_int: "scalar_str (str_int n)"
  using scalar_digits by (simp add: str_int_def scalar_str_def is_scalar_def)

lemma writerow_row: "writerow (row_cells r) = row_line r"
  by (simp add: writerow_def row_cells_def row_line_def csv_str_def)

lemma scalar_row_line: "row_scalar r \<Longrightarrow> scalar_str (row_line r)"
proof -
  assume r: "row_scalar r"
  have "list_all scalar_str (map csv_field
     [str_int (v_id r), v_datum r, v_ime r, v_priimek r, v_email r, v_razred r, v_oddelek r,
      v_predmeti r])"
    using r by (simp add: row_scalar_def scalar_csv_field scalar_str_int)
  then have "scalar_str (join [59] (map csv_field
     [str_int (v_id r), v_datum r, v_ime r, v_priimek r, v_email r, v_razred r, v_oddelek r,
      v_predmeti r]))"
    by (rule scalar_str_join [rotated]) (simp add: scalar_str_def is_scalar_def)
  then show ?thesis
    by (simp add: row_line_def scalar_str_append) (simp add: scalar_str_def is_scalar_def)
qed

lemma header_line:
  "writerow CSV_HEADER =
     asc ''ID;Datum;Ime;Priimek;E-po'' @ [0x161] @ asc ''ta;Razred;Oddelek;Predmeti (u''
       @ [0x10D] @ asc ''itelj)'' @ [13, 10]"
  by (simp add: writerow_def CSV_HEADER_def csv_str_def csv_field_def csv_special_def asc_def)

lemma export_text_lines:
  "export_text rows =
     asc ''ID;Datum;Ime;Priimek;E-po'' @ [0x161] @ asc ''ta;Razred;Oddelek;Predmeti (u''
       @ [0x10D] @ asc ''itelj)'' @ [13, 10] @ concat (map row_line rows)"
  by (simp add: export_text_def header_line writerow_row)

lemma scalar_export_text: "list_all row_scalar rows \<Longrightarrow> scalar_str (export_text rows)"
proof -
  assume "list_all row_scalar rows"
  then have "list_all scalar_str (map row_line rows)"
    by (simp add: list_all_iff scalar_row_line)
  then have "scalar_str (concat (map row_line rows))" by (rule scalar_str_concat)
  then show ?thesis
    unfolding export_text_lines
    by (simp add: scalar_str_append scalar_asc scalar_str_Cons scalar_str_Nil is_scalar_def)
qed

lemma all_vnosi_run:
  assumes "db_connect_ok e" and "db_execute_ok e" and "db_table w = Some rows"
  shows "all_vnosi e w =
    (Inr (rev (sort_key v_id rows)), w\<lparr>trace := trace w @ [DbConnect, DbExecute, DbClose]\<rparr>)"
  using assms by (simp add: store_defs)

lemma all_vnosi_descending:
  assumes "distinct (map v_id rows)"
  shows "sorted_wrt (\<lambda>a b. v_id a > v_id b) (rev (sort_key v_id rows))"
proof -
  have "sorted (map v_id (sort_key v_id rows))" by (rule sorted_sort_key)
  moreover have "distinct (map v_id (sort_key v_id rows))"
    using assms by (simp add: distinct_map)
  ultimately have "sorted_wrt (<) (map v_id (sort_key v_id rows))"
    by (simp add: strict_sorted_iff)
  then have "sorted_wrt (\<lambda>a b. v_id a < v_id b) (sort_key v_id rows)"
    by (simp add: sorted_wrt_map)
  then show ?thesis by (simp add: sorted_wrt_rev)
qed

lemma csv_field_delimiter:
  "59 \<in> set (csv_field s) \<Longrightarrow> hd (csv_field s) = 34 \<and> last (csv_field s) = 34"
  by (auto simp: csv_field_def csv_special_def list_ex_iff)

text \<open>
  C8.  For a logged-in administrator, a store whose calls succeed and whose records hold
  text UTF-8 can encode, \<open>export_csv\<close> sends a file whose bytes are the byte-order mark
  EF BB BF followed by the UTF-8 encoding of: the header line with its eight
  semicolon-separated column names, \<open>ID\<close> first, and then one line per record, its
  fields in header order, in the order \<open>all_vnosi\<close> returns the records, which is by id
  descending and holds every record of the table once.  A semicolon reaches the output of
  a field only inside quotes, so an unquoted semicolon is always a delimiter.
\<close>

theorem export_csv_format:
  assumes "admin_ok s" and "db_connect_ok e" and "db_execute_ok e"
    and "db_table w = Some rows" and "distinct (map v_id rows)"
    and "list_all row_scalar rows"
  shows "\<exists>body. fst (export_csv e s w) =
        Inr (SendFile ([0xEF, 0xBB, 0xBF] @ body) (asc ''text/csv'') (asc ''instruktorji.csv''))
      \<and> utf8 (asc ''ID;Datum;Ime;Priimek;E-po'' @ [0x161] @ asc ''ta;Razred;Oddelek;Predmeti (u''
            @ [0x10D] @ asc ''itelj)'' @ [13, 10]
            @ concat (map row_line (rev (sort_key v_id rows)))) = Some body
      \<and> fst (all_vnosi e w) = Inr (rev (sort_key v_id rows))
      \<and> set (rev (sort_key v_id rows)) = set rows
      \<and> length (rev (sort_key v_id rows)) = length rows
      \<and> sorted_wrt (\<lambda>a b. v_id a > v_id b) (rev (sort_key v_id rows))
      \<and> (\<forall>x. 59 \<in> set (csv_field x) \<longrightarrow> hd (csv_field x) = 34 \<and> last (csv_field x) = 34)"
proof -
  let ?rows = "rev (sort_key v_id rows)"
  note run = all_vnosi_run [OF assms(2,3,4)]
  have "list_all row_scalar ?rows"
    using assms(6) by (simp add: list_all_iff)
  then have "scalar_str (export_text ?rows)" by (rule scalar_export_text)
  then obtain body where body: "utf8 (export_text ?rows) = Some body"
    using utf8_scalar by blast
  have 1: "fst (export_csv e s w) =
        Inr (SendFile ([0xEF, 0xBB, 0xBF] @ body) (asc ''text/csv'') (asc ''instruktorji.csv''))"
    using assms(1) body by (simp add: export_csv_def run encode_utf8_sig_def BOM_def)
  have 2: "utf8 (asc ''ID;Datum;Ime;Priimek;E-po'' @ [0x161] @ asc ''ta;Razred;Oddelek;Predmeti (u''
            @ [0x10D] @ asc ''itelj)'' @ [13, 10] @ concat (map row_line ?rows)) = Some body"
    using body unfolding export_text_lines .
  have 3: "fst (all_vnosi e w) = Inr ?rows" by (simp add: run)
  have 4: "sorted_wrt (\<lambda>a b. v_id a > v_id b) ?rows"
    using assms(5) by (rule all_vnosi_descending)
  have 5: "\<forall>x. 59 \<in> set (csv_field x) \<longrightarrow> hd (csv_field x) = 34 \<and> last (csv_field x) = 34"
    using csv_field_delimiter by blast
  from 1 2 3 4 5 show ?thesis by (intro exI [of _ body] conjI) simp_all
qed

theorem export_csv_format_witness:
  "fst (all_vnosi env_ok world12) = Inr (rev rows12)
   \<and> fst (export_csv env_ok session_admin world12) =
   Inr (SendFile
    [239, 187, 191, 73, 68, 59, 68, 97, 116, 117, 109, 59, 73, 109, 101, 59, 80, 114, 105,
     105, 109, 101, 107, 59, 69, 45, 112, 111, 197, 161, 116, 97, 59, 82, 97, 122, 114, 101,
     100, 59, 79, 100, 100, 101, 108, 101, 107, 59, 80, 114, 101, 100, 109, 101, 116, 105, 32,
     40, 117, 196, 141, 105, 116, 101, 108, 106, 41, 13, 10, 50, 59, 50, 48, 50, 53, 45, 48,
     49, 45, 48, 50, 32, 49, 49, 58, 51, 48, 59, 66, 111, 114, 59, 75, 111, 115, 59, 98, 64,
     120, 46, 115, 105, 59, 51, 46, 32, 108, 101, 116, 110, 105, 107, 59, 97, 59, 34, 70, 105,
     122, 105, 107, 97, 32, 40, 90, 97, 106, 99, 41, 59, 32, 75, 101, 109, 105, 106, 97, 32,
     40, 75, 111, 115, 41, 34, 13, 10, 49, 59, 50, 48, 50, 53, 45, 48, 49, 45, 48, 49, 32, 49,
     48, 58, 48, 48, 59, 65, 110, 97, 59, 78, 111, 118, 97, 107, 59, 97, 64, 120, 46, 115,
     105, 59, 50, 46, 32, 108, 101, 116, 110, 105, 107, 59, 98, 59, 226, 128, 148, 13, 10]
    (asc ''text/csv'') (asc ''instruktorji.csv''))"
proof -
  have h: "admin_ok session_admin" "db_connect_ok env_ok" "db_execute_ok env_ok"
      "db_table world12 = Some rows12" "distinct (map v_id rows12)" "list_all row_scalar rows12"
    by (simp_all add: admin_ok_def session_admin_def fixture_defs world12_def rows12_def
        row_scalar_def)
  have srt: "rev (sort_key v_id rows12) = rev rows12"
    by (simp add: rows12_def)
  have ls: "concat (map row_line (rev rows12)) =
      asc ''2;2025-01-02 11:30;Bor;Kos;b@x.si;3. letnik;a;'' @ [34]
        @ asc ''Fizika (Zajc); Kemija (Kos)'' @ [34, 13, 10]
        @ asc ''1;2025-01-01 10:00;Ana;Novak;a@x.si;2. letnik;b;'' @ [0x2014, 13, 10]"
    by (simp add: rows12_def row_line_def csv_field_def csv_special_def str_int_def
        digits.simps [of 2] digits.simps [of "Suc 0"] asc_def DASH_def)
  from export_csv_format [OF h] obtain body where
    b: "fst (export_csv env_ok session_admin world12) =
        Inr (SendFile ([0xEF, 0xBB, 0xBF] @ body) (asc ''text/csv'') (asc ''instruktorji.csv''))"
      "utf8 (asc ''ID;Datum;Ime;Priimek;E-po'' @ [0x161] @ asc ''ta;Razred;Oddelek;Predmeti (u''
            @ [0x10D] @ asc ''itelj)'' @ [13, 10]
            @ concat (map row_line (rev (sort_key v_id rows12)))) = Some body"
      "fst (all_vnosi env_ok world12) = Inr (rev (sort_key v_id rows12))"
    by blast
  from b(2) have "body = drop 3
    [239, 187, 191, 73, 68, 59, 68, 97, 116, 117, 109, 59, 73, 109, 101, 59, 80, 114, 105,
     105, 109, 101, 107, 59, 69, 45, 112, 111, 197, 161, 116, 97, 59, 82, 97, 122, 114, 101,
     100, 59, 79, 100, 100, 101, 108, 101, 107, 59, 80, 114, 101, 100, 109, 101, 116, 105, 32,
     40, 117, 196, 141, 105, 116, 101, 108, 106, 41, 13, 10, 50, 59, 50, 48, 50, 53, 45, 48,
     49, 45, 48, 50, 32, 49, 49, 58, 51, 48, 59, 66, 111, 114, 59, 75, 111, 115, 59, 98, 64,
     120, 46, 115, 105, 59, 51, 46, 32, 108, 101, 116, 110, 105, 107, 59, 97, 59, 34, 70, 105,
     122, 105, 107, 97, 32, 40, 90, 97, 106, 99, 41, 59, 32, 75, 101, 109, 105, 106, 97, 32,
     40, 75, 111, 115, 41, 34, 13, 10, 49, 59, 50, 48, 50, 53, 45, 48, 49, 45, 48, 49, 32, 49,
     48, 58, 48, 48, 59, 65, 110, 97, 59, 78, 111, 118, 97, 107, 59, 97, 64, 120, 46, 115,
     105, 59, 50, 46, 32, 108, 101, 116, 110, 105, 107, 59, 98, 59, 226, 128, 148, 13, 10]"
    unfolding srt ls by (simp add: asc_def utf8_char_def)
  with b(1,3) show ?thesis unfolding srt by simp
qed

end
